theory Spec2Isabelle
  imports Main "HOL-Library.AList"
begin

section \<open>Values, data objects and the external collaborators\<close>

text \<open>
  The engine of \<^verbatim>\<open>Validation.ts\<close> works on JavaScript objects that it shares and mutates.
  The embedding keeps two stores of objects, both addressed by natural numbers: the
  validator objects a declaration holds (\<open>vstore\<close>) and the data objects under validation
  (\<open>heap\<close>). A dictionary of the source (\<open>{[name:string]: ...}\<close>) is an association list in
  insertion order, which is the order \<^verbatim>\<open>for ... in\<close> and \<^verbatim>\<open>_.each\<close> enumerate own keys in
  (for names that are not array indices); assignment to a key is \<open>AList.update\<close>: an
  existing key keeps its place, a new one goes last. Only own keys are modelled, not the
  ones an object inherits from \<^verbatim>\<open>Object.prototype\<close>.
\<close>

type_synonym addr = nat

datatype jsval = Undefined | Null | JBool bool | JNum int | JStr string | JRef addr

text \<open>What a \<^verbatim>\<open>throw\<close> or a rejected promise carries: a \<^verbatim>\<open>TypeError\<close> of the JavaScript
  runtime (a property read on \<^verbatim>\<open>undefined\<close> or \<^verbatim>\<open>null\<close>, a call of something that is not a
  function), a \<^verbatim>\<open>RangeError\<close> (an invalid array length), or whatever external code threw.\<close>

datatype fault = TypeError | RangeError | Thrown string

text \<open>What becomes of a promise that external code hands to the engine: it is fulfilled
  with a (truthy or falsy) result, rejected, or never settled. The number is the moment it
  settles: Q runs the \<^verbatim>\<open>then\<close> callbacks of promises in the order the promises settle, and
  those of promises settled at the same moment in the order the callbacks were
  registered.\<close>

datatype settle = Fulfils nat bool | Rejects nat fault | Never

text \<open>What a call of \<^verbatim>\<open>validator.isAcceptable(value)\<close> does: it returns a (truthy or
  falsy) value, it throws, or it returns a promise.\<close>

datatype acceptance = Returns bool | Throws fault | Promise settle

text \<open>Modelled from the spec: the validator capability contract (\<^verbatim>\<open>validators.ts\<close> and the
  catalogue of validators are not among the sources). A validator has a tag, an
  acceptability check, the flag \<^verbatim>\<open>isAsync\<close> (read by its truthiness), and further own
  fields used for messages (\<open>params\<close>).\<close>

record validator =
  tagName :: string
  isAsync :: bool
  isAcceptable :: "jsval \<Rightarrow> acceptance"
  params :: "(string \<times> jsval) list"

text \<open>A data object is a plain object (its own properties in insertion order) or an array
  (its elements, and its named properties).\<close>

datatype hobj = Object "(string \<times> jsval) list" | Array "jsval list" "(string \<times> jsval) list"

text \<open>Modelled from the spec: \<^verbatim>\<open>Error\<close> and \<^verbatim>\<open>ValidationFailure\<close> of \<^verbatim>\<open>errors.ts\<close>, which is not
  among the sources. An error has \<open>hasError\<close>, a message and translate arguments (the tag
  and the message arguments; the engine passes the validator object itself as message
  arguments, so they are an address of \<open>vstore\<close>). A validation failure is one error and
  the flag \<^verbatim>\<open>IsAsync\<close>.\<close>

record translate_args =
  TranslateId :: string
  MessageArgs :: addr

record error =
  HasError :: bool
  ErrorMessage :: string
  TranslateArgs :: "translate_args option"

record validation_failure =
  Error :: error
  IsAsync :: bool

text \<open>The world outside one rule tree: both stores, the next unused address of the data
  heap, what has been written with \<^verbatim>\<open>console.log\<close> (the text and the exception passed with
  it), the calls of \<^verbatim>\<open>isAcceptable\<close> made so far (the validator and the value; the engine
  does not keep this list, it records the calls that leave the engine), the table
  \<^verbatim>\<open>MessageLocalization.ValidationMessages\<close>, and two things of files that are not among
  the sources and are left open here: \<^verbatim>\<open>StringFce.format\<close> of \<^verbatim>\<open>Utils.ts\<close>, and the state of the
  object that \<^verbatim>\<open>new Error()\<close> of \<^verbatim>\<open>errors.ts\<close> returns (\<open>new_Error\<close>): whether an error that
  no evaluation has written yet reports a failure is not for the engine to say.\<close>

record world =
  vstore :: "addr \<Rightarrow> validator"
  heap :: "addr \<Rightarrow> hobj option"
  next_addr :: addr
  console :: "(string \<times> fault) list"
  invoked :: "(addr \<times> jsval) list"
  ValidationMessages :: "(string \<times> string) list"
  format :: "string \<Rightarrow> validator \<Rightarrow> string"
  new_Error :: error

definition absent :: "jsval \<Rightarrow> bool" where
  "absent value = (value = Undefined \<or> value = Null)"

subsection \<open>Reading properties of data\<close>

fun digit :: "nat \<Rightarrow> char" where
  "digit n = char_of (48 + n)"

fun toString :: "nat \<Rightarrow> string" where
  "toString n = (if n < 10 then [digit n] else toString (n div 10) @ [digit (n mod 10)])"

definition index_of :: "string \<Rightarrow> nat list \<Rightarrow> nat option" where
  "index_of key is = find (\<lambda>i. toString i = key) is"

text \<open>\<^verbatim>\<open>context[key]\<close>: a \<^verbatim>\<open>TypeError\<close> on \<^verbatim>\<open>undefined\<close> and \<^verbatim>\<open>null\<close>; a missing property reads
  as \<^verbatim>\<open>undefined\<close>; a string has its length and its characters; numbers and booleans have
  no property the engine asks for.\<close>

definition get_prop :: "world \<Rightarrow> jsval \<Rightarrow> string \<Rightarrow> fault + jsval" where
  "get_prop w context key =
     (case context of
        Undefined \<Rightarrow> Inl TypeError
      | Null \<Rightarrow> Inl TypeError
      | JRef a \<Rightarrow>
          (case heap w a of
             None \<Rightarrow> Inr Undefined
           | Some (Object props) \<Rightarrow>
               Inr (case map_of props key of None \<Rightarrow> Undefined | Some v \<Rightarrow> v)
           | Some (Array elems props) \<Rightarrow>
               (case index_of key [0..<length elems] of
                  Some i \<Rightarrow> Inr (elems ! i)
                | None \<Rightarrow>
                    if key = ''length'' then Inr (JNum (int (length elems)))
                    else Inr (case map_of props key of None \<Rightarrow> Undefined | Some v \<Rightarrow> v)))
      | JStr s \<Rightarrow>
          (case index_of key [0..<length s] of
             Some i \<Rightarrow> Inr (JStr [s ! i])
           | None \<Rightarrow> if key = ''length'' then Inr (JNum (int (length s))) else Inr Undefined)
      | _ \<Rightarrow> Inr Undefined)"

subsection \<open>Conversion to a number\<close>

text \<open>The engine compares a loop counter with a length by \<^verbatim>\<open>!=\<close>, and JavaScript assigns to the
  length of an array: both convert a value to a number. The numbers of the embedding are
  the integers, so what is computed is the natural number a value converts to, if it
  converts to one; a numeral in a string is taken at its exact value.

  A numeral of digits in a base, and the index a property key names in an array (the
  canonical numerals below 4294967295).\<close>

definition digit_value :: "char \<Rightarrow> nat option" where
  "digit_value c =
     (let n = (of_char c :: nat) in
      if 48 \<le> n \<and> n \<le> 57 then Some (n - 48)
      else if 97 \<le> n \<and> n \<le> 102 then Some (n - 87)
      else if 65 \<le> n \<and> n \<le> 70 then Some (n - 55)
      else None)"

definition digits :: "nat \<Rightarrow> string \<Rightarrow> bool" where
  "digits b s = list_all (\<lambda>c. case digit_value c of Some d \<Rightarrow> d < b | None \<Rightarrow> False) s"

definition numeral_value :: "nat \<Rightarrow> string \<Rightarrow> nat" where
  "numeral_value b s = foldl (\<lambda>n c. case digit_value c of Some d \<Rightarrow> n * b + d | None \<Rightarrow> n) 0 s"

definition array_index :: "string \<Rightarrow> nat option" where
  "array_index key =
     (if key \<noteq> [] \<and> digits 10 key \<and> toString (numeral_value 10 key) = key
         \<and> numeral_value 10 key < 4294967295
      then Some (numeral_value 10 key) else None)"

text \<open>\<^verbatim>\<open>StringNumericLiteral\<close>: white space around a decimal literal with an optional sign, a
  fraction and an exponent, or around a hexadecimal, binary or octal integer; the empty
  string is 0. A decimal literal is returned as \<open>(m, e)\<close>, for the value \<open>m\<close> times ten to the power \<open>e\<close>.\<close>

definition white_space :: "char \<Rightarrow> bool" where
  "white_space c = ((of_char c :: nat) \<in> {9, 10, 11, 12, 13, 32, 160})"

definition trim :: "string \<Rightarrow> string" where
  "trim s = rev (dropWhile white_space (rev (dropWhile white_space s)))"

definition signed_integer :: "string \<Rightarrow> int option" where
  "signed_integer s =
     (case s of
        [] \<Rightarrow> None
      | c # t \<Rightarrow>
          if c = CHR ''+'' then (if t \<noteq> [] \<and> digits 10 t then Some (int (numeral_value 10 t)) else None)
          else if c = CHR ''-'' then
            (if t \<noteq> [] \<and> digits 10 t then Some (- int (numeral_value 10 t)) else None)
          else if digits 10 s then Some (int (numeral_value 10 s))
          else None)"

definition unsigned_decimal :: "string \<Rightarrow> (nat \<times> int) option" where
  "unsigned_decimal s =
     (let mantissa = takeWhile (\<lambda>c. c \<noteq> CHR ''e'' \<and> c \<noteq> CHR ''E'') s;
          exponent = dropWhile (\<lambda>c. c \<noteq> CHR ''e'' \<and> c \<noteq> CHR ''E'') s;
          whole = takeWhile (\<lambda>c. c \<noteq> CHR ''.'') mantissa;
          point = dropWhile (\<lambda>c. c \<noteq> CHR ''.'') mantissa;
          fraction = tl point
      in if \<not> (digits 10 whole \<and> digits 10 fraction) \<or> (whole = [] \<and> fraction = []) then None
         else
           (case (if exponent = [] then Some 0 else signed_integer (tl exponent)) of
              None \<Rightarrow> None
            | Some e \<Rightarrow> Some (numeral_value 10 (whole @ fraction), e - int (length fraction))))"

definition natural :: "nat \<times> int \<Rightarrow> nat option" where
  "natural v =
     (case v of
        (m, e) \<Rightarrow>
          if m = 0 then Some 0
          else if 0 \<le> e then Some (m * 10 ^ nat e)
          else if 10 ^ nat (- e) dvd m then Some (m div 10 ^ nat (- e))
          else None)"

definition radix_integer :: "nat \<Rightarrow> string \<Rightarrow> nat option" where
  "radix_integer b s = (if s \<noteq> [] \<and> digits b s then Some (numeral_value b s) else None)"

definition StringToNumber :: "string \<Rightarrow> nat option" where
  "StringToNumber s =
     (case trim s of
        [] \<Rightarrow> Some 0
      | c # r \<Rightarrow>
          if c = CHR ''+'' then Option.bind (unsigned_decimal r) natural
          else if c = CHR ''-'' then
            (case Option.bind (unsigned_decimal r) natural of
               Some n \<Rightarrow> if n = 0 then Some 0 else None
             | None \<Rightarrow> None)
          else if c = CHR ''0'' \<and> r \<noteq> [] \<and> (hd r = CHR ''x'' \<or> hd r = CHR ''X'') then
            radix_integer 16 (tl r)
          else if c = CHR ''0'' \<and> r \<noteq> [] \<and> (hd r = CHR ''b'' \<or> hd r = CHR ''B'') then
            radix_integer 2 (tl r)
          else if c = CHR ''0'' \<and> r \<noteq> [] \<and> (hd r = CHR ''o'' \<or> hd r = CHR ''O'') then
            radix_integer 8 (tl r)
          else Option.bind (unsigned_decimal (c # r)) natural)"

text \<open>The string of a value. That of an array is the strings of its elements joined by
  commas, the empty string for \<^verbatim>\<open>undefined\<close>, for \<^verbatim>\<open>null\<close>, and for an array that is being
  joined already; that of any other object is \<^verbatim>\<open>[object Object]\<close>. The first argument
  bounds the nesting of arrays that is followed: there are no more arrays than addresses
  in use.\<close>

fun join :: "string list \<Rightarrow> string" where
  "join [] = []"
| "join [x] = x"
| "join (x # y # zs) = x @ CHR '','' # join (y # zs)"

fun ToString :: "nat \<Rightarrow> world \<Rightarrow> addr list \<Rightarrow> jsval \<Rightarrow> string" where
  "ToString k w seen Undefined = ''undefined''"
| "ToString k w seen Null = ''null''"
| "ToString k w seen (JBool b) = (if b then ''true'' else ''false'')"
| "ToString k w seen (JNum n) = (if n < 0 then CHR ''-'' # toString (nat (- n)) else toString (nat n))"
| "ToString k w seen (JStr s) = s"
| "ToString 0 w seen (JRef a) = []"
| "ToString (Suc k) w seen (JRef a) =
     (case heap w a of
        Some (Array elems props) \<Rightarrow>
          if a \<in> set seen then []
          else join (map (\<lambda>x. if absent x then [] else ToString k w (a # seen) x) elems)
      | _ \<Rightarrow> ''[object Object]'')"

text \<open>\<open>ToNumber w v\<close> is the natural number that \<open>v\<close> converts to, if it converts to one.\<close>

definition ToNumber :: "world \<Rightarrow> jsval \<Rightarrow> nat option" where
  "ToNumber w v =
     (case v of
        Undefined \<Rightarrow> None
      | Null \<Rightarrow> Some 0
      | JBool b \<Rightarrow> Some (if b then 1 else 0)
      | JNum n \<Rightarrow> if 0 \<le> n then Some (nat n) else None
      | JStr s \<Rightarrow> StringToNumber s
      | JRef a \<Rightarrow> StringToNumber (ToString (Suc (next_addr w)) w [] (JRef a)))"

subsection \<open>Writing properties of data\<close>

text \<open>\<^verbatim>\<open>context[key] = v\<close>. Outside strict mode an assignment to a property of a primitive
  value is dropped; on \<^verbatim>\<open>undefined\<close> and \<^verbatim>\<open>null\<close> it is a \<^verbatim>\<open>TypeError\<close>. An assignment to an
  index past the end of an array extends the array (the elements in between read as
  \<^verbatim>\<open>undefined\<close>); one to its length cuts or extends it, and is a \<^verbatim>\<open>RangeError\<close> for a value
  that is not a length.\<close>

definition set_prop :: "world \<Rightarrow> jsval \<Rightarrow> string \<Rightarrow> jsval \<Rightarrow> fault + world" where
  "set_prop w context key v =
     (case context of
        Undefined \<Rightarrow> Inl TypeError
      | Null \<Rightarrow> Inl TypeError
      | JRef a \<Rightarrow>
          (case heap w a of
             None \<Rightarrow> Inr w
           | Some (Object props) \<Rightarrow>
               Inr (w\<lparr>heap := (heap w)(a \<mapsto> Object (AList.update key v props))\<rparr>)
           | Some (Array elems props) \<Rightarrow>
               (case index_of key [0..<length elems] of
                  Some i \<Rightarrow> Inr (w\<lparr>heap := (heap w)(a \<mapsto> Array (elems[i := v]) props)\<rparr>)
                | None \<Rightarrow>
                    (case array_index key of
                       Some i \<Rightarrow>
                         Inr (w\<lparr>heap := (heap w)
                                (a \<mapsto> Array (elems @ replicate (i - length elems) Undefined @ [v]) props)\<rparr>)
                     | None \<Rightarrow>
                         if key = ''length'' then
                           (case ToNumber w v of
                              None \<Rightarrow> Inl RangeError
                            | Some n \<Rightarrow>
                                if n < 4294967296 then
                                  Inr (w\<lparr>heap := (heap w)
                                         (a \<mapsto> Array (take n elems @ replicate (n - length elems) Undefined)
                                                  props)\<rparr>)
                                else Inl RangeError)
                         else
                           Inr (w\<lparr>heap := (heap w)(a \<mapsto> Array elems (AList.update key v props))\<rparr>))))
      | _ \<Rightarrow> Inr w)"

text \<open>\<^verbatim>\<open>{}\<close>: a new empty object at the next unused address.\<close>

definition new_object :: "world \<Rightarrow> addr \<times> world" where
  "new_object w =
     (next_addr w, w\<lparr>heap := (heap w)(next_addr w \<mapsto> Object []), next_addr := Suc (next_addr w)\<rparr>)"

section \<open>Messages\<close>

definition customMsg :: string where
  "customMsg = ''Please, fix the field.''"

definition defaultMessages :: "(string \<times> string) list" where
  "defaultMessages =
    [(''required'', ''This field is required.''),
     (''remote'', ''Please fix the field.''),
     (''email'', ''Please enter a valid email address.''),
     (''url'', ''Please enter a valid URL.''),
     (''date'', ''Please enter a valid date.''),
     (''dateISO'', ''Please enter a valid date ( ISO ).''),
     (''number'', ''Please enter a valid number.''),
     (''digits'', ''Please enter only digits.''),
     (''signedDigits'', ''Please enter only signed digits.''),
     (''creditcard'', ''Please enter a valid credit card number.''),
     (''equalTo'', ''Please enter the same value again.''),
     (''maxlength'', ''Please enter no more than {MaxLength} characters..''),
     (''minlength'', ''Please enter at least {MinLength} characters.''),
     (''rangelength'', ''Please enter a value between {MinLength} and {MaxLength} characters long.''),
     (''range'', ''Please enter a value between {Min} and {Max}.''),
     (''max'', ''Please enter a value less than or equal to {Max}.''),
     (''min'', ''Please enter a value greater than or equal to {Min}.''),
     (''step'', ''Please enter a value with step {Step}.''),
     (''contains'',
        ''Please enter a value from list of values. Attempted value '' @ [CHR 0x27] @
        ''{AttemptedValue}'' @ [CHR 0x27] @ ''.''),
     (''mask'', ''Please enter a value corresponding with {Mask}.''),
     (''custom'', customMsg)]"

definition GetValidationMessage :: "world \<Rightarrow> validator \<Rightarrow> string" where
  "GetValidationMessage w validator =
     (let msgText =
        (case map_of (ValidationMessages w) (tagName validator) of
           None \<Rightarrow> customMsg
         | Some t \<Rightarrow> if t = [] then customMsg else t)
      in format w msgText validator)"

text \<open>\<^verbatim>\<open>_.extend(validator, {AttemptedValue: value})\<close>: underscore copies the property into its
  first argument, the validator object itself, and returns that object.\<close>

definition extend_AttemptedValue :: "addr \<Rightarrow> jsval \<Rightarrow> world \<Rightarrow> world" where
  "extend_AttemptedValue a value w =
     w\<lparr>vstore := (vstore w)
        (a := (vstore w a)\<lparr>params := AList.update ''AttemptedValue'' value (params (vstore w a))\<rparr>)\<rparr>"

section \<open>PropertyValidationRule\<close>

text \<open>\<open>Name\<close> and \<open>Optional\<close> are fields of the base class \<^verbatim>\<open>ValidationResult\<close>
  (\<^verbatim>\<open>errors.ts\<close>). The predicate \<open>Optional\<close> is a closure over data the caller owns: it reads
  the world as it is when it is called. A field that holds no function counts as none.\<close>

record property_rule =
  Name :: string
  Validators :: "(string \<times> addr) list"
  ValidationFailures :: "(string \<times> validation_failure) list"
  Optional :: "(world \<Rightarrow> bool) option"

definition AddValidator :: "world \<Rightarrow> addr \<Rightarrow> property_rule \<Rightarrow> property_rule" where
  "AddValidator w a rule =
     rule\<lparr>Validators := AList.update (tagName (vstore w a)) a (Validators rule),
          ValidationFailures :=
            AList.update (tagName (vstore w a))
              \<lparr>Error = new_Error w, IsAsync = isAsync (vstore w a)\<rparr> (ValidationFailures rule)\<rparr>"

definition PropertyValidationRule :: "world \<Rightarrow> string \<Rightarrow> addr list \<Rightarrow> property_rule" where
  "PropertyValidationRule w name validatorsToAdd =
     fold (AddValidator w) validatorsToAdd
       \<lparr>Name = name, Validators = [], ValidationFailures = [], Optional = None\<rparr>"

definition Errors :: "property_rule \<Rightarrow> error list" where
  "Errors rule = map (\<lambda>(tag, item). Error item) (ValidationFailures rule)"

definition suppressed :: "world \<Rightarrow> (world \<Rightarrow> bool) option \<Rightarrow> bool" where
  "suppressed w optional = (case optional of None \<Rightarrow> False | Some f \<Rightarrow> f w)"

definition HasErrors :: "world \<Rightarrow> property_rule \<Rightarrow> bool" where
  "HasErrors w rule =
     (if suppressed w (Optional rule) then False else list_ex HasError (Errors rule))"

definition ErrorCount :: "world \<Rightarrow> property_rule \<Rightarrow> nat" where
  "ErrorCount w rule = (if HasErrors w rule then 1 else 0)"

definition ErrorMessage_of :: "world \<Rightarrow> property_rule \<Rightarrow> string" where
  "ErrorMessage_of w rule =
     (if \<not> HasErrors w rule then []
      else foldl (\<lambda>memo error. memo @ ErrorMessage error) [] (Errors rule))"

definition TranslateArgs_of :: "world \<Rightarrow> property_rule \<Rightarrow> translate_args option list" where
  "TranslateArgs_of w rule =
     (if \<not> HasErrors w rule then []
      else map TranslateArgs (filter HasError (Errors rule)))"

subsection \<open>The synchronous pass\<close>

text \<open>\<^verbatim>\<open>!validator.isAcceptable(value)\<close> on what the call returned: a promise is an object,
  and an object is truthy.\<close>

fun truthy :: "acceptance \<Rightarrow> bool" where
  "truthy (Returns b) = b"
| "truthy (Promise p) = True"
| "truthy (Throws e) = False"

text \<open>The assignments to \<^verbatim>\<open>validation.Error\<close>, the same in both passes: \<open>a\<close> is the
  validator the code holds in \<^verbatim>\<open>validator\<close>. The validator object receives the attempted
  value before the message is composed from it.\<close>

definition record_outcome ::
  "addr \<Rightarrow> jsval \<Rightarrow> bool \<Rightarrow> validation_failure \<Rightarrow> world \<Rightarrow> validation_failure \<times> world" where
  "record_outcome a value hasError validation w =
     (let w' = extend_AttemptedValue a value w in
      (validation\<lparr>Error :=
         \<lparr>HasError = hasError,
          ErrorMessage = (if hasError then GetValidationMessage w' (vstore w' a) else []),
          TranslateArgs = Some \<lparr>TranslateId = tagName (vstore w a), MessageArgs = a\<rparr>\<rparr>\<rparr>,
       w'))"

definition log_method :: "string \<Rightarrow> fault \<Rightarrow> world \<Rightarrow> world" where
  "log_method tag e w =
     w\<lparr>console := console w @
        [(''Exception occurred when checking element'' @ [CHR 0x27] @ tag @ [CHR 0x27] @ '' method.'', e)]\<rparr>"

definition log_element :: "string \<Rightarrow> fault \<Rightarrow> world \<Rightarrow> world" where
  "log_element key e w =
     w\<lparr>console := console w @ [(''Exception occurred when checking element '' @ key @ ''.'', e)]\<rparr>"

text \<open>The loop of \<^verbatim>\<open>ValidateEx\<close> over the entries of \<^verbatim>\<open>ValidationFailures\<close>, with the two
  variables \<^verbatim>\<open>lastPriority\<close> and \<^verbatim>\<open>shortCircuited\<close> it carries. It returns the exception that
  ended it, if one did, and the entries as it leaves them. A tag without a validator makes
  \<^verbatim>\<open>validator.tagName\<close> a \<^verbatim>\<open>TypeError\<close>, in the \<^verbatim>\<open>try\<close> block and again in the \<^verbatim>\<open>catch\<close> block,
  before anything is logged.\<close>

fun ValidateEx_loop ::
  "jsval \<Rightarrow> (string \<times> addr) list \<Rightarrow> int \<Rightarrow> bool \<Rightarrow> (string \<times> validation_failure) list \<Rightarrow> world
   \<Rightarrow> fault option \<times> (string \<times> validation_failure) list \<times> world" where
  "ValidateEx_loop value vs lastPriority shortCircuited [] w = (None, [], w)"
| "ValidateEx_loop value vs lastPriority shortCircuited ((index, validation) # rest) w =
     (if IsAsync validation then
        (case ValidateEx_loop value vs lastPriority shortCircuited rest w of
           (e, rest', w') \<Rightarrow> (e, (index, validation) # rest', w'))
      else
        (case map_of vs index of
           None \<Rightarrow> (Some TypeError, (index, validation) # rest, w)
         | Some a \<Rightarrow>
            (let priority = 0 in
             if shortCircuited \<and> priority > lastPriority then
               (case ValidateEx_loop value vs lastPriority shortCircuited rest w of
                  (e, rest', w') \<Rightarrow>
                    (e, (index, validation\<lparr>Error := (Error validation)\<lparr>HasError := False\<rparr>\<rparr>) # rest', w'))
             else if absent value \<and> tagName (vstore w a) \<noteq> ''required'' then
               (case record_outcome a value False validation w of
                  (validation', w1) \<Rightarrow>
                    (case ValidateEx_loop value vs priority False rest w1 of
                       (e, rest', w') \<Rightarrow> (e, (index, validation') # rest', w')))
             else
               (let w0 = w\<lparr>invoked := invoked w @ [(a, value)]\<rparr> in
                case isAcceptable (vstore w a) value of
                  Throws e \<Rightarrow>
                    (Some e, (index, validation) # rest, log_method (tagName (vstore w a)) e w0)
                | r \<Rightarrow>
                    (case record_outcome a value (\<not> truthy r) validation w0 of
                       (validation', w1) \<Rightarrow>
                         (case ValidateEx_loop value vs priority (\<not> truthy r) rest w1 of
                            (e, rest', w') \<Rightarrow> (e, (index, validation') # rest', w')))))))"

text \<open>\<^verbatim>\<open>ValidateEx\<close> returns the failures that are not asynchronous, or throws.\<close>

definition ValidateEx ::
  "jsval \<Rightarrow> property_rule \<Rightarrow> world \<Rightarrow> (fault + validation_failure list) \<times> property_rule \<times> world" where
  "ValidateEx value rule w =
     (case ValidateEx_loop value (Validators rule) 0 False (ValidationFailures rule) w of
        (e, failures, w') \<Rightarrow>
          ((case e of
              Some f \<Rightarrow> Inl f
            | None \<Rightarrow> Inr (filter (\<lambda>item. \<not> IsAsync item) (map snd failures))),
           rule\<lparr>ValidationFailures := failures\<rparr>, w'))"

text \<open>\<^verbatim>\<open>ValidationContext\<close>: \<^verbatim>\<open>Value\<close> is \<^verbatim>\<open>this.Data[this.Key]\<close>.\<close>

record validation_context =
  Key :: string
  Data :: jsval

definition Value :: "world \<Rightarrow> validation_context \<Rightarrow> fault + jsval" where
  "Value w context = get_prop w (Data context) (Key context)"

definition PropertyValidationRule_Validate ::
  "validation_context \<Rightarrow> property_rule \<Rightarrow> world
   \<Rightarrow> (fault + validation_failure list) \<times> property_rule \<times> world" where
  "PropertyValidationRule_Validate context rule w =
     (case Value w context of
        Inl e \<Rightarrow> (Inl e, rule, log_element (Key context) e w)
      | Inr value \<Rightarrow>
          (case ValidateEx value rule w of
             (Inl e, rule', w') \<Rightarrow> (Inl e, rule', log_element (Key context) e w')
           | (Inr failures, rule', w') \<Rightarrow> (Inr failures, rule', w')))"

subsection \<open>The asynchronous pass\<close>

text \<open>Modelled from the spec: the promises of the library Q, as far as the engine uses
  them. A promise is pending, fulfilled with a value, or rejected. \<^verbatim>\<open>Q.all\<close> of a list of
  promises is rejected as soon as one of them is, is fulfilled when all are, and stays
  pending otherwise.\<close>

datatype 'a promise = Pending | Fulfilled 'a | Rejected fault

fun rejection :: "settle \<Rightarrow> (nat \<times> fault) option" where
  "rejection (Rejects t e) = Some (t, e)"
| "rejection s = None"

fun fulfilled :: "settle \<Rightarrow> bool" where
  "fulfilled (Fulfils t b) = True"
| "fulfilled s = False"

definition Q_all :: "settle list \<Rightarrow> unit promise" where
  "Q_all promises =
     (case sort_key fst (List.map_filter rejection promises) of
        (t, e) # others \<Rightarrow> Rejected e
      | [] \<Rightarrow> if list_all fulfilled promises then Fulfilled () else Pending)"

text \<open>The variables of \<^verbatim>\<open>ValidateAsyncEx\<close>. \<^verbatim>\<open>validation\<close> and \<^verbatim>\<open>validator\<close> are declared with
  \<^verbatim>\<open>var\<close>: there is one of each for the whole call, not one for each turn of the loop, and
  the callbacks passed to \<^verbatim>\<open>then\<close> read them when they run, which is after the loop has
  ended. \<^verbatim>\<open>validation\<close> is held by its key.\<close>

record async_vars =
  validation_var :: "string option"
  validator_var :: "addr option"
  promises :: "settle list"

text \<open>The loop of \<^verbatim>\<open>ValidateAsyncEx\<close>. \<^verbatim>\<open>Q.when(true)\<close> is a promise fulfilled from the start.
  A check that returns something other than a promise makes \<^verbatim>\<open>hasErrorPromise.then\<close> a call
  of \<^verbatim>\<open>undefined\<close>, a \<^verbatim>\<open>TypeError\<close> raised inside the \<^verbatim>\<open>try\<close> block.\<close>

fun ValidateAsyncEx_loop ::
  "jsval \<Rightarrow> (string \<times> addr) list \<Rightarrow> (string \<times> validation_failure) list \<Rightarrow> async_vars \<Rightarrow> world
   \<Rightarrow> fault option \<times> async_vars \<times> world" where
  "ValidateAsyncEx_loop value vs [] vars w = (None, vars, w)"
| "ValidateAsyncEx_loop value vs ((index, validation) # rest) vars w =
     (let vars1 = vars\<lparr>validation_var := Some index\<rparr> in
      if \<not> IsAsync validation then ValidateAsyncEx_loop value vs rest vars1 w
      else
        (case map_of vs index of
           None \<Rightarrow> (Some TypeError, vars1\<lparr>validator_var := None\<rparr>, w)
         | Some a \<Rightarrow>
            (let vars2 = vars1\<lparr>validator_var := Some a\<rparr> in
             if absent value \<and> tagName (vstore w a) \<noteq> ''required'' then
               ValidateAsyncEx_loop value vs rest
                 (vars2\<lparr>promises := promises vars2 @ [Fulfils 0 True]\<rparr>) w
             else
               (let w0 = w\<lparr>invoked := invoked w @ [(a, value)]\<rparr> in
                case isAcceptable (vstore w a) value of
                  Throws e \<Rightarrow> (Some e, vars2, log_method (tagName (vstore w a)) e w0)
                | Returns b \<Rightarrow>
                    (Some TypeError, vars2, log_method (tagName (vstore w a)) TypeError w0)
                | Promise p \<Rightarrow>
                    ValidateAsyncEx_loop value vs rest
                      (vars2\<lparr>promises := promises vars2 @ [p]\<rparr>) w0))))"

text \<open>One callback, run with the result its promise was fulfilled with. It writes through
  the variables as the loop left them.\<close>

definition callback :: "async_vars \<Rightarrow> jsval \<Rightarrow> bool \<Rightarrow> property_rule \<Rightarrow> world \<Rightarrow> property_rule \<times> world" where
  "callback vars value result rule w =
     (case (validation_var vars, validator_var vars) of
        (Some index, Some a) \<Rightarrow>
          (case map_of (ValidationFailures rule) index of
             Some validation \<Rightarrow>
               (case record_outcome a value (\<not> result) validation w of
                  (validation', w') \<Rightarrow>
                    (rule\<lparr>ValidationFailures := AList.update index validation' (ValidationFailures rule)\<rparr>,
                     w'))
           | None \<Rightarrow> (rule, w))
      | _ \<Rightarrow> (rule, w))"

fun settle_time :: "settle \<Rightarrow> nat" where
  "settle_time (Fulfils t b) = t"
| "settle_time (Rejects t e) = t"
| "settle_time Never = 0"

fun run_callbacks :: "async_vars \<Rightarrow> jsval \<Rightarrow> settle list \<Rightarrow> property_rule \<Rightarrow> world \<Rightarrow> property_rule \<times> world" where
  "run_callbacks vars value [] rule w = (rule, w)"
| "run_callbacks vars value (Fulfils t result # ps) rule w =
     (case callback vars value result rule w of (rule', w') \<Rightarrow> run_callbacks vars value ps rule' w')"
| "run_callbacks vars value (p # ps) rule w = run_callbacks vars value ps rule w"

text \<open>All callbacks of one call, in the order their promises settle.\<close>

definition settle_callbacks :: "async_vars \<Rightarrow> jsval \<Rightarrow> property_rule \<Rightarrow> world \<Rightarrow> property_rule \<times> world" where
  "settle_callbacks vars value rule w =
     run_callbacks vars value (sort_key settle_time (promises vars)) rule w"

text \<open>The promise \<^verbatim>\<open>ValidateAsyncEx\<close> returns is that of a deferred of its own, which only
  the fulfilment handler of \<^verbatim>\<open>Q.all(promises)\<close> resolves; \<^verbatim>\<open>Q.all(promises).then\<close> is given no
  rejection handler. \<open>returned_promise\<close> is the state that promise ends in.\<close>

definition returned_promise :: "unit promise \<Rightarrow> 'a \<Rightarrow> 'a promise" where
  "returned_promise all result = (case all of Fulfilled u \<Rightarrow> Fulfilled result | _ \<Rightarrow> Pending)"

definition no_vars :: async_vars where
  "no_vars = \<lparr>validation_var = None, validator_var = None, promises = []\<rparr>"

text \<open>\<^verbatim>\<open>ValidateAsyncEx\<close>, in two steps: the call itself, which runs the loop and either
  throws or returns a promise; and what follows it, when the promises of the validators
  have settled and the callbacks have run. The callbacks registered before an exception
  run as well.\<close>

definition ValidateAsyncEx_call ::
  "jsval \<Rightarrow> property_rule \<Rightarrow> world \<Rightarrow> fault option \<times> async_vars \<times> world" where
  "ValidateAsyncEx_call value rule w =
     ValidateAsyncEx_loop value (Validators rule) (ValidationFailures rule) no_vars w"

definition ValidateAsyncEx ::
  "jsval \<Rightarrow> property_rule \<Rightarrow> world
   \<Rightarrow> (fault + validation_failure list promise) \<times> property_rule \<times> world" where
  "ValidateAsyncEx value rule w =
     (case ValidateAsyncEx_call value rule w of
        (e, vars, w1) \<Rightarrow>
          (case settle_callbacks vars value rule w1 of
             (rule', w') \<Rightarrow>
               ((case e of
                   Some f \<Rightarrow> Inl f
                 | None \<Rightarrow>
                     Inr (returned_promise (Q_all (promises vars))
                            (filter IsAsync (map snd (ValidationFailures rule'))))),
                rule', w')))"

definition PropertyValidationRule_ValidateAsync ::
  "validation_context \<Rightarrow> property_rule \<Rightarrow> world
   \<Rightarrow> (fault + validation_failure list promise) \<times> property_rule \<times> world" where
  "PropertyValidationRule_ValidateAsync context rule w =
     (case Value w context of
        Inl e \<Rightarrow> (Inl e, rule, w)
      | Inr value \<Rightarrow> ValidateAsyncEx value rule w)"

section \<open>Validator: a shared validation function\<close>

text \<open>The function is external code, called with the data context as \<^verbatim>\<open>this\<close> and the error
  object of the node to fill in. It is taken to read the world and the context and to
  write only the error it is given; it may throw, and then leaves the error as it had
  made it by then.\<close>

record shared_validator =
  Validator_Name :: string
  ValidateFce :: "world \<Rightarrow> jsval \<Rightarrow> error \<Rightarrow> fault option \<times> error"
  Validator_Error :: error
  Validator_Optional :: "(world \<Rightarrow> bool) option"

definition Validator ::
  "world \<Rightarrow> string \<Rightarrow> (world \<Rightarrow> jsval \<Rightarrow> error \<Rightarrow> fault option \<times> error) \<Rightarrow> shared_validator" where
  "Validator w name fce =
     \<lparr>Validator_Name = name, ValidateFce = fce, Validator_Error = new_Error w,
      Validator_Optional = None\<rparr>"

definition Validator_HasErrors :: "world \<Rightarrow> shared_validator \<Rightarrow> bool" where
  "Validator_HasErrors w v =
     (if suppressed w (Validator_Optional v) then False else HasError (Validator_Error v))"

definition Validator_ErrorCount :: "world \<Rightarrow> shared_validator \<Rightarrow> nat" where
  "Validator_ErrorCount w v = (if Validator_HasErrors w v then 1 else 0)"

definition Validator_ErrorMessage :: "world \<Rightarrow> shared_validator \<Rightarrow> string" where
  "Validator_ErrorMessage w v =
     (if \<not> Validator_HasErrors w v then [] else ErrorMessage (Validator_Error v))"

definition Validator_Validate ::
  "jsval \<Rightarrow> shared_validator \<Rightarrow> world \<Rightarrow> (fault + bool) \<times> shared_validator" where
  "Validator_Validate context v w =
     (case ValidateFce v w context (Validator_Error v) of
        (e, err) \<Rightarrow>
          (let v' = v\<lparr>Validator_Error := err\<rparr> in
           ((case e of Some f \<Rightarrow> Inl f | None \<Rightarrow> Inr (Validator_HasErrors w v')), v')))"

section \<open>Declarations\<close>

text \<open>\<^verbatim>\<open>AbstractValidator\<close>. A declaration is an object that other declarations refer to: the
  dictionary \<^verbatim>\<open>AbstractValidators\<close> holds the nested declarations themselves, and
  \<^verbatim>\<open>ValidatorFor\<close> writes the flag \<^verbatim>\<open>ForList\<close> into the declaration it is given. So the
  declarations under construction are objects in a store of their own, with for each
  property the validator objects (addresses of \<open>vstore\<close>), the named shared validation
  functions, and the addresses of the nested declarations. The three dictionaries are
  association lists in insertion order.\<close>

type_synonym validator_fce = "string \<times> (world \<Rightarrow> jsval \<Rightarrow> error \<Rightarrow> fault option \<times> error)"

record abstract_validator_object =
  Validators_of :: "(string \<times> addr list) list"
  ValidationFunctions_of :: "(string \<times> validator_fce list) list"
  AbstractValidators_of :: "(string \<times> addr) list"
  ForList_of :: bool

record declarations =
  objects :: "addr \<Rightarrow> abstract_validator_object"
  allocated :: nat

definition new_AbstractValidator :: "declarations \<Rightarrow> addr \<times> declarations" where
  "new_AbstractValidator ds =
     (allocated ds,
      ds\<lparr>objects := (objects ds)
            (allocated ds :=
               \<lparr>Validators_of = [], ValidationFunctions_of = [], AbstractValidators_of = [],
                ForList_of = False\<rparr>),
         allocated := Suc (allocated ds)\<rparr>)"

definition push :: "string \<Rightarrow> 'a \<Rightarrow> (string \<times> 'a list) list \<Rightarrow> (string \<times> 'a list) list" where
  "push prop x dict =
     AList.update prop ((case map_of dict prop of None \<Rightarrow> [] | Some xs \<Rightarrow> xs) @ [x]) dict"

definition RuleFor :: "addr \<Rightarrow> string \<Rightarrow> addr \<Rightarrow> declarations \<Rightarrow> declarations" where
  "RuleFor this prop validator ds =
     ds\<lparr>objects := (objects ds)
          (this := (objects ds this)
             \<lparr>Validators_of := push prop validator (Validators_of (objects ds this))\<rparr>)\<rparr>"

definition ValidationFor :: "addr \<Rightarrow> string \<Rightarrow> validator_fce \<Rightarrow> declarations \<Rightarrow> declarations" where
  "ValidationFor this prop fce ds =
     ds\<lparr>objects := (objects ds)
          (this := (objects ds this)
             \<lparr>ValidationFunctions_of := push prop fce (ValidationFunctions_of (objects ds this))\<rparr>)\<rparr>"

text \<open>\<^verbatim>\<open>ValidatorFor\<close> first writes the flag into the nested declaration, then registers it:
  a declaration registered under several properties, or in several declarations, has the
  flag of the last registration everywhere.\<close>

definition ValidatorFor :: "addr \<Rightarrow> string \<Rightarrow> addr \<Rightarrow> bool \<Rightarrow> declarations \<Rightarrow> declarations" where
  "ValidatorFor this prop validator forList ds =
     (let os = (objects ds)(validator := (objects ds validator)\<lparr>ForList_of := forList\<rparr>)
      in ds\<lparr>objects := os
              (this := (os this)
                 \<lparr>AbstractValidators_of :=
                    AList.update prop validator (AbstractValidators_of (os this))\<rparr>)\<rparr>)"

text \<open>A rule tree reads its declaration, and the declarations nested in it, when it is
  constructed and each time it is evaluated; by the specification a declaration does not
  change once a rule tree has been made from it. So a rule tree holds its declaration as
  the value it has by then: the object with the nested declarations in the place of their
  addresses. \<open>unfolded k os a\<close> is that value for the object at \<open>a\<close>, if the nesting is
  less than \<open>k\<close> deep; \<open>declared\<close> follows it as deep as there are objects. A declaration
  that is nested in itself has no such value: the rule trees of such declarations are not
  covered.\<close>

datatype abstract_validator = AbstractValidator
  (decl_Validators: "(string \<times> addr list) list")
  (ValidationFunctions: "(string \<times> validator_fce list) list")
  (AbstractValidators: "(string \<times> abstract_validator) list")
  (ForList: bool)

fun unfolded :: "nat \<Rightarrow> (addr \<Rightarrow> abstract_validator_object) \<Rightarrow> addr \<Rightarrow> abstract_validator option" where
  "unfolded 0 os a = None"
| "unfolded (Suc k) os a =
     map_option
       (\<lambda>avs. AbstractValidator (Validators_of (os a)) (ValidationFunctions_of (os a)) avs
                 (ForList_of (os a)))
       (those (map (\<lambda>entry. map_option (Pair (fst entry)) (unfolded k os (snd entry)))
                 (AbstractValidators_of (os a))))"

definition declared :: "declarations \<Rightarrow> addr \<Rightarrow> abstract_validator option" where
  "declared ds a = unfolded (allocated ds) (objects ds) a"

section \<open>Rule trees\<close>

text \<open>Modelled from the spec: \<^verbatim>\<open>CompositeValidationResult\<close> of \<^verbatim>\<open>errors.ts\<close>, which is not among
  the sources: a named container of the nodes that were added to it. The nodes it holds
  are the property rules, the shared validators and the results of the child rules of
  the rule that owns it, so it is kept as the list of their keys, in the order of the
  calls of \<^verbatim>\<open>Add\<close>, with the predicate \<^verbatim>\<open>Optional\<close>.\<close>

datatype contributor = of_Rule string | of_Validator string | of_Child string

text \<open>\<^verbatim>\<open>AbstractValidationRule\<close>, and its subclass \<^verbatim>\<open>AbstractListValidationRule\<close> when \<open>is_list\<close>
  holds.\<close>

datatype rule = Rule
  (rule_Name: string)
  (rule_validator: abstract_validator)
  (is_list: bool)
  (Rules: "(string \<times> property_rule) list")
  (rule_Validators: "(string \<times> shared_validator) list")
  (Children: "(string \<times> rule) list")
  (Contributors: "contributor list")
  (rule_Optional: "(world \<Rightarrow> bool) option")

fun set_Rules :: "(string \<times> property_rule) list \<Rightarrow> rule \<Rightarrow> rule" where
  "set_Rules rs (Rule n d l rs0 vs cs ct opt) = Rule n d l rs vs cs ct opt"

fun set_Validators :: "(string \<times> shared_validator) list \<Rightarrow> rule \<Rightarrow> rule" where
  "set_Validators vs (Rule n d l rs vs0 cs ct opt) = Rule n d l rs vs cs ct opt"

fun set_Children :: "(string \<times> rule) list \<Rightarrow> rule \<Rightarrow> rule" where
  "set_Children cs (Rule n d l rs vs cs0 ct opt) = Rule n d l rs vs cs ct opt"

fun Add :: "contributor \<Rightarrow> rule \<Rightarrow> rule" where
  "Add c (Rule n d l rs vs cs ct opt) = Rule n d l rs vs cs (ct @ [c]) opt"

fun SetOptional :: "(world \<Rightarrow> bool) \<Rightarrow> rule \<Rightarrow> rule" where
  "SetOptional fce (Rule n d l rs vs cs ct opt) = Rule n d l rs vs cs ct (Some fce)"

text \<open>The constructor, on the declaration as a value. A rule made for a list (\<open>forList\<close>)
  starts with nothing: no property rules, no shared validators, no children.\<close>

definition createRuleFor :: "world \<Rightarrow> string \<Rightarrow> rule \<Rightarrow> rule" where
  "createRuleFor w prop r =
     Add (of_Rule prop) (set_Rules (AList.update prop (PropertyValidationRule w prop []) (Rules r)) r)"

definition add_validators :: "world \<Rightarrow> string \<times> addr list \<Rightarrow> rule \<Rightarrow> rule" where
  "add_validators w entry r =
     (let r1 = createRuleFor w (fst entry) r in
      set_Rules
        (AList.map_entry (fst entry) (fold (AddValidator w) (snd entry)) (Rules r1)) r1)"

definition add_validation :: "world \<Rightarrow> validator_fce \<Rightarrow> rule \<Rightarrow> rule" where
  "add_validation w validation r =
     (case map_of (rule_Validators r) (fst validation) of
        None \<Rightarrow>
          Add (of_Validator (fst validation))
            (set_Validators
               (AList.update (fst validation) (Validator w (fst validation) (snd validation))
                  (rule_Validators r)) r)
      | Some validator \<Rightarrow> r)"

definition add_child :: "string \<Rightarrow> rule \<Rightarrow> rule \<Rightarrow> rule" where
  "add_child key validationRule r =
     Add (of_Child key) (set_Children (AList.update key validationRule (Children r)) r)"

fun AbstractValidationRule :: "world \<Rightarrow> string \<Rightarrow> abstract_validator \<Rightarrow> bool \<Rightarrow> rule" where
  "AbstractValidationRule w name (AbstractValidator vds vfs avs fl) forList =
     (let r0 = Rule name (AbstractValidator vds vfs avs fl) forList [] [] [] [] None in
      if forList then r0
      else
        (let r1 = fold (add_validators w) vds r0;
             r2 = fold (add_validation w) (concat (map snd vfs)) r1
         in fold (\<lambda>entry r.
                    add_child (fst entry)
                      (AbstractValidationRule w (fst entry) (snd entry) (ForList (snd entry))) r)
              avs r2))"

text \<open>The three methods of a declaration that make a rule, for the declaration \<open>d\<close> that
  the object has as its value (\<open>declared ds a = Some d\<close>).\<close>

definition CreateAbstractRule :: "world \<Rightarrow> abstract_validator \<Rightarrow> string \<Rightarrow> rule" where
  "CreateAbstractRule w d name = AbstractValidationRule w name d False"


definition CreateRule :: "world \<Rightarrow> abstract_validator \<Rightarrow> string \<Rightarrow> rule" where
  "CreateRule w d name = AbstractValidationRule w name d False"

section \<open>Evaluation of a rule tree\<close>

text \<open>How a call ends: it returns, it throws, or it never returns.\<close>

datatype 'a outcome = Returned 'a | Raised fault | Hangs

text \<open>The loops over a list are \<^verbatim>\<open>for (var i = 0; i != list.length; i++)\<close>: the counter runs
  through 0, 1, 2, ... and the loop ends only when \<^verbatim>\<open>!=\<close> finds the counter equal to the
  length. A number is never equal to \<^verbatim>\<open>undefined\<close> or \<^verbatim>\<open>null\<close>; any other length is converted
  to a number, and the loop ends if that is a natural number. \<open>loop_bound\<close> is the number
  of turns, if the loop ends.\<close>

definition loop_bound :: "world \<Rightarrow> jsval \<Rightarrow> nat option" where
  "loop_bound w len = (if len = Null then None else ToNumber w len)"

declare toString.simps [simp del]

definition getIndexedKey :: "string \<Rightarrow> nat \<Rightarrow> string" where
  "getIndexedKey name i = name @ toString i"

definition getValidationRule :: "rule \<Rightarrow> nat \<Rightarrow> rule option" where
  "getValidationRule r i = map_of (Children r) (getIndexedKey (rule_Name r) i)"

text \<open>One turn of the loop of \<^verbatim>\<open>NotifyListChanged\<close>, and the method. Where the loop never
  ends the rule is returned as it was (the source goes on creating children).\<close>

definition notify_index :: "world \<Rightarrow> nat \<Rightarrow> rule \<Rightarrow> rule" where
  "notify_index w i r =
     (case getValidationRule r i of
        None \<Rightarrow>
          add_child (getIndexedKey (rule_Name r) i)
            (CreateAbstractRule w (rule_validator r) (getIndexedKey (rule_Name r) i)) r
      | Some validationRule \<Rightarrow> r)"

definition list_length :: "world \<Rightarrow> jsval \<Rightarrow> nat outcome" where
  "list_length w list =
     (case get_prop w list ''length'' of
        Inl e \<Rightarrow> Raised e
      | Inr len \<Rightarrow> (case loop_bound w len of None \<Rightarrow> Hangs | Some n \<Rightarrow> Returned n))"

definition NotifyListChanged :: "world \<Rightarrow> jsval \<Rightarrow> rule \<Rightarrow> unit outcome \<times> rule" where
  "NotifyListChanged w list r =
     (case list_length w list of
        Returned n \<Rightarrow> (Returned (), fold (notify_index w) [0..<n] r)
      | Raised e \<Rightarrow> (Raised e, r)
      | Hangs \<Rightarrow> (Hangs, r))"

text \<open>The loop of \<^verbatim>\<open>Validate\<close> over the property rules, and the loops over the shared
  validation functions of the declaration: a function whose name has no \<^verbatim>\<open>Validator\<close> node
  is passed over.\<close>

fun Validate_rules ::
  "jsval \<Rightarrow> (string \<times> property_rule) list \<Rightarrow> world
   \<Rightarrow> unit outcome \<times> (string \<times> property_rule) list \<times> world" where
  "Validate_rules context [] w = (Returned (), [], w)"
| "Validate_rules context ((propName, rule) # rest) w =
     (case PropertyValidationRule_Validate \<lparr>Key = propName, Data = context\<rparr> rule w of
        (Inl e, rule', w') \<Rightarrow> (Raised e, (propName, rule') # rest, w')
      | (Inr failures, rule', w') \<Rightarrow>
          (case Validate_rules context rest w' of
             (e, rest', w'') \<Rightarrow> (e, (propName, rule') # rest', w'')))"

fun Validate_shared ::
  "jsval \<Rightarrow> world \<Rightarrow> validator_fce list \<Rightarrow> (string \<times> shared_validator) list
   \<Rightarrow> unit outcome \<times> (string \<times> shared_validator) list" where
  "Validate_shared context w [] vs = (Returned (), vs)"
| "Validate_shared context w (valFce # rest) vs =
     (case map_of vs (fst valFce) of
        None \<Rightarrow> Validate_shared context w rest vs
      | Some validator \<Rightarrow>
          (case Validator_Validate context validator w of
             (Inl e, validator') \<Rightarrow> (Raised e, AList.update (fst valFce) validator' vs)
           | (Inr b, validator') \<Rightarrow>
               Validate_shared context w rest (AList.update (fst valFce) validator' vs)))"

text \<open>\<^verbatim>\<open>if (context[key] === undefined) context[key] = {}\<close>, and the value \<^verbatim>\<open>context[key]\<close> then
  has.\<close>

definition init_child :: "world \<Rightarrow> jsval \<Rightarrow> string \<Rightarrow> fault + (jsval \<times> world)" where
  "init_child w context key =
     (case get_prop w context key of
        Inl e \<Rightarrow> Inl e
      | Inr v \<Rightarrow>
          if v = Undefined then
            (case new_object w of
               (b, w1) \<Rightarrow>
                 (case set_prop w1 context key (JRef b) of
                    Inl e \<Rightarrow> Inl e
                  | Inr w2 \<Rightarrow>
                      (case get_prop w2 context key of
                         Inl e \<Rightarrow> Inl e
                       | Inr v2 \<Rightarrow> Inr (v2, w2))))
          else Inr (v, w))"

subsection \<open>A measure for the recursion\<close>

text \<open>A list rule creates children while it is evaluated, from its declaration. The
  recursion of \<^verbatim>\<open>Validate\<close> descends into them, so its measure counts for a list rule the
  height of the rule a child is created as.\<close>

fun fresh_height :: "abstract_validator \<Rightarrow> nat" where
  "fresh_height (AbstractValidator vds vfs avs fl) =
     Suc (Max (insert 0
       ((\<lambda>entry. if ForList (snd entry) then Suc (fresh_height (snd entry))
                 else fresh_height (snd entry)) ` set avs)))"

fun rheight :: "rule \<Rightarrow> nat" where
  "rheight (Rule n d l rs vs cs ct opt) =
     Suc (max (if l then fresh_height d else 0)
            (Max (insert 0 ((\<lambda>entry. rheight (snd entry)) ` set cs))))"

definition cheight :: "(string \<times> rule) list \<Rightarrow> nat" where
  "cheight cs = Max (insert 0 ((\<lambda>entry. rheight (snd entry)) ` set cs))"

subsection \<open>Facts about the measure\<close>

lemma rheight_Rule:
  "rheight (Rule n d l rs vs cs ct opt) = Suc (max (if l then fresh_height d else 0) (cheight cs))"
  by (simp add: cheight_def)

declare rheight.simps [simp del] fresh_height.simps [simp del]

lemma cheight_Nil: "cheight [] = 0"
  by (simp add: cheight_def)

lemma cheight_Cons: "cheight (entry # cs) = max (rheight (snd entry)) (cheight cs)"
proof -
  let ?f = "\<lambda>entry. rheight (snd entry)"
  have "insert 0 (?f ` set (entry # cs)) = insert (?f entry) (insert 0 (?f ` set cs))"
    by auto
  moreover have "Max (insert (?f entry) (insert 0 (?f ` set cs))) = max (?f entry) (Max (insert 0 (?f ` set cs)))"
    by (rule Max_insert) simp_all
  ultimately show ?thesis
    unfolding cheight_def by (simp only:)
qed

lemma cheight_update: "cheight (AList.update k v cs) \<le> max (rheight v) (cheight cs)"
  by (induction cs) (auto simp: cheight_Nil cheight_Cons)

lemma cheight_map_of: "map_of cs k = Some c \<Longrightarrow> rheight c \<le> cheight cs"
  by (induction cs) (auto simp: cheight_Cons split: if_splits)

lemma cheight_mem: "entry \<in> set cs \<Longrightarrow> rheight (snd entry) \<le> cheight cs"
  by (induction cs) (auto simp: cheight_Cons)

lemma rule_parts:
  "Children (set_Rules rs r) = Children r" "Children (set_Validators vs r) = Children r"
  "Children (Add c r) = Children r" "Children (set_Children cs r) = cs"
  "rule_validator (set_Rules rs r) = rule_validator r"
  "rule_validator (set_Validators vs r) = rule_validator r"
  "rule_validator (Add c r) = rule_validator r" "rule_validator (set_Children cs r) = rule_validator r"
  "is_list (set_Rules rs r) = is_list r" "is_list (set_Validators vs r) = is_list r"
  "is_list (Add c r) = is_list r" "is_list (set_Children cs r) = is_list r"
  "rule_Name (set_Rules rs r) = rule_Name r" "rule_Name (set_Validators vs r) = rule_Name r"
  "rule_Name (Add c r) = rule_Name r" "rule_Name (set_Children cs r) = rule_Name r"
  "Rules (set_Rules rs r) = rs" "Rules (set_Validators vs r) = Rules r"
  "Rules (Add c r) = Rules r" "Rules (set_Children cs r) = Rules r"
  "rule_Validators (set_Rules rs r) = rule_Validators r" "rule_Validators (set_Validators vs r) = vs"
  "rule_Validators (Add c r) = rule_Validators r" "rule_Validators (set_Children cs r) = rule_Validators r"
  "Contributors (set_Rules rs r) = Contributors r" "Contributors (set_Validators vs r) = Contributors r"
  "Contributors (Add c r) = Contributors r @ [c]" "Contributors (set_Children cs r) = Contributors r"
  "rule_Optional (set_Rules rs r) = rule_Optional r" "rule_Optional (set_Validators vs r) = rule_Optional r"
  "rule_Optional (Add c r) = rule_Optional r" "rule_Optional (set_Children cs r) = rule_Optional r"
  by (cases r; simp)+

lemma rheight_sel:
  "rheight r = Suc (max (if is_list r then fresh_height (rule_validator r) else 0) (cheight (Children r)))"
  by (cases r) (simp add: rheight_Rule)

lemma add_validators_parts:
  "Children (add_validators w entry r) = Children r"
  "rule_validator (add_validators w entry r) = rule_validator r"
  "is_list (add_validators w entry r) = is_list r"
  by (simp_all add: add_validators_def createRuleFor_def Let_def rule_parts)

lemma add_validation_parts:
  "Children (add_validation w v r) = Children r"
  "rule_validator (add_validation w v r) = rule_validator r"
  "is_list (add_validation w v r) = is_list r"
  by (simp_all add: add_validation_def rule_parts split: option.splits)

lemma fold_add_validators_parts:
  "Children (fold (add_validators w) vds r) = Children r"
  "is_list (fold (add_validators w) vds r) = is_list r"
  "rule_validator (fold (add_validators w) vds r) = rule_validator r"
  by (induction vds arbitrary: r) (simp_all add: add_validators_parts)

lemma fold_add_validation_parts:
  "Children (fold (add_validation w) vfs r) = Children r"
  "is_list (fold (add_validation w) vfs r) = is_list r"
  "rule_validator (fold (add_validation w) vfs r) = rule_validator r"
  by (induction vfs arbitrary: r) (simp_all add: add_validation_parts)

lemma add_child_parts:
  "Children (add_child key c r) = AList.update key c (Children r)"
  "is_list (add_child key c r) = is_list r"
  "rule_validator (add_child key c r) = rule_validator r"
  "rule_Name (add_child key c r) = rule_Name r"
  by (simp_all add: add_child_def rule_parts)

lemma fold_add_child_height:
  assumes "\<And>entry. entry \<in> set es \<Longrightarrow> rheight (F entry) \<le> b"
  shows "cheight (Children (fold (\<lambda>entry r. add_child (fst entry) (F entry) r) es r)) \<le> max b (cheight (Children r))
       \<and> is_list (fold (\<lambda>entry r. add_child (fst entry) (F entry) r) es r) = is_list r
       \<and> rule_validator (fold (\<lambda>entry r. add_child (fst entry) (F entry) r) es r) = rule_validator r"
  using assms
proof (induction es arbitrary: r)
  case Nil
  then show ?case by simp
next
  case (Cons e es)
  let ?r = "add_child (fst e) (F e) r"
  have 1: "rheight (F e) \<le> b" using Cons.prems by simp
  have 2: "cheight (Children ?r) \<le> max (rheight (F e)) (cheight (Children r))"
    by (simp add: add_child_parts cheight_update)
  have 3: "cheight (Children (fold (\<lambda>entry r. add_child (fst entry) (F entry) r) es ?r)) \<le> max b (cheight (Children ?r))"
    and 4: "is_list (fold (\<lambda>entry r. add_child (fst entry) (F entry) r) es ?r) = is_list ?r"
    and 5: "rule_validator (fold (\<lambda>entry r. add_child (fst entry) (F entry) r) es ?r) = rule_validator ?r"
    using Cons.IH [of ?r] Cons.prems by simp_all
  have "cheight (Children (fold (\<lambda>entry r. add_child (fst entry) (F entry) r) es ?r)) \<le> max b (cheight (Children r))"
    using 1 2 3 by linarith
  with 4 5 show ?case by (simp add: add_child_parts)
qed

lemma rheight_AbstractValidationRule:
  "rheight (AbstractValidationRule w name d forList)
     \<le> (if forList then Suc (fresh_height d) else fresh_height d)"
proof (induction w name d forList rule: AbstractValidationRule.induct)
  case (1 w name vds vfs avs fl forList)
  let ?d = "AbstractValidator vds vfs avs fl"
  let ?r0 = "Rule name ?d forList [] [] [] [] None"
  show ?case
  proof (cases forList)
    case True
    then show ?thesis by (simp add: Let_def rheight_Rule cheight_Nil)
  next
    case False
    let ?r2 = "fold (add_validation w) (concat (map snd vfs)) (fold (add_validators w) vds ?r0)"
    let ?F = "\<lambda>entry. AbstractValidationRule w (fst entry) (snd entry) (ForList (snd entry))"
    let ?g = "\<lambda>entry. if ForList (snd entry) then Suc (fresh_height (snd entry)) else fresh_height (snd entry)"
    let ?b = "Max (insert 0 (?g ` set avs))"
    have F: "rheight (?F entry) \<le> ?b" if "entry \<in> set avs" for entry
    proof -
      have "rheight (?F entry) \<le> ?g entry"
        using "1.IH" [OF refl False refl refl that] by simp
      also have "?g entry \<le> ?b" using that by (intro Max_ge) auto
      finally show ?thesis .
    qed
    have r2: "Children ?r2 = []" "is_list ?r2 = False"
      using False by (simp_all add: fold_add_validation_parts fold_add_validators_parts)
    from fold_add_child_height [of avs ?F ?b ?r2] F
    have "cheight (Children (fold (\<lambda>entry r. add_child (fst entry) (?F entry) r) avs ?r2)) \<le> ?b"
      and "is_list (fold (\<lambda>entry r. add_child (fst entry) (?F entry) r) avs ?r2) = False"
      by (simp_all add: r2 cheight_Nil)
    then have "rheight (fold (\<lambda>entry r. add_child (fst entry) (?F entry) r) avs ?r2) \<le> Suc ?b"
      by (simp add: rheight_sel)
    with False show ?thesis by (simp add: Let_def fresh_height.simps)
  qed
qed

lemma notify_index_height:
  "cheight (Children (notify_index w i r)) \<le> max (fresh_height (rule_validator r)) (cheight (Children r))"
  "rule_validator (notify_index w i r) = rule_validator r"
  "is_list (notify_index w i r) = is_list r"
proof -
  have "rheight (CreateAbstractRule w (rule_validator r) k) \<le> fresh_height (rule_validator r)" for k
    using rheight_AbstractValidationRule [of w k "rule_validator r" False]
    by (simp add: CreateAbstractRule_def)
  from this [of "getIndexedKey (rule_Name r) i"]
    cheight_update [of "getIndexedKey (rule_Name r) i"
        "CreateAbstractRule w (rule_validator r) (getIndexedKey (rule_Name r) i)" "Children r"]
  have "cheight (AList.update (getIndexedKey (rule_Name r) i)
          (CreateAbstractRule w (rule_validator r) (getIndexedKey (rule_Name r) i)) (Children r))
        \<le> max (fresh_height (rule_validator r)) (cheight (Children r))"
    by linarith
  then show "cheight (Children (notify_index w i r)) \<le> max (fresh_height (rule_validator r)) (cheight (Children r))"
    by (simp add: notify_index_def add_child_parts split: option.splits)
  show "rule_validator (notify_index w i r) = rule_validator r"
    "is_list (notify_index w i r) = is_list r"
    by (simp_all add: notify_index_def add_child_parts split: option.splits)
qed

lemma fold_notify_index_height:
  "cheight (Children (fold (notify_index w) is r)) \<le> max (fresh_height (rule_validator r)) (cheight (Children r))
   \<and> rule_validator (fold (notify_index w) is r) = rule_validator r
   \<and> is_list (fold (notify_index w) is r) = is_list r"
proof (induction "is" arbitrary: r)
  case Nil
  show ?case by simp
next
  case (Cons i "is")
  have "cheight (Children (fold (notify_index w) is (notify_index w i r)))
          \<le> max (fresh_height (rule_validator r)) (cheight (Children (notify_index w i r)))"
    using Cons.IH [of "notify_index w i r"] by (simp add: notify_index_height)
  then have "cheight (Children (fold (notify_index w) is (notify_index w i r)))
          \<le> max (fresh_height (rule_validator r)) (cheight (Children r))"
    using notify_index_height(1) [of w i r] by linarith
  with Cons.IH [of "notify_index w i r"] notify_index_height [of w i r]
  show ?case by simp
qed

lemma NotifyListChanged_height:
  "cheight (Children (snd (NotifyListChanged w list r)))
     \<le> max (fresh_height (rule_validator r)) (cheight (Children r))"
  using fold_notify_index_height [of w _ r]
  by (auto simp: NotifyListChanged_def split: outcome.splits)

definition Validate_measure ::
  "(jsval \<times> rule \<times> world) +
   (jsval \<times> (string \<times> rule) list \<times> world) +
   (string \<times> jsval \<times> nat list \<times> (string \<times> rule) list \<times> (string \<times> rule) list \<times> world)
   \<Rightarrow> nat \<times> nat" where
  "Validate_measure x =
     (case x of
        Inl (context, r, w) \<Rightarrow> (rheight r, 0)
      | Inr (Inl (context, cs, w)) \<Rightarrow> (cheight cs, Suc (length cs))
      | Inr (Inr (name, context, is, cs0, cs, w)) \<Rightarrow> (cheight cs0, Suc (length is)))"

lemma NotifyListChanged_lt:
  "(e, this) = NotifyListChanged w context (Rule n d True rs vs cs ct opt) \<Longrightarrow>
     cheight (Children this) < Suc (max (fresh_height d) (cheight cs))"
  using NotifyListChanged_height [of w "context" "Rule n d True rs vs cs ct opt"]
  by (cases "NotifyListChanged w context (Rule n d True rs vs cs ct opt)") simp

lemma cheight_map_of_lt: "map_of cs k = Some c \<Longrightarrow> rheight c \<noteq> cheight cs \<Longrightarrow> rheight c < cheight cs"
  using cheight_map_of [of cs k c] by simp

subsection \<open>Validate\<close>

text \<open>\<^verbatim>\<open>Validate\<close> of a rule and of a list rule, with its loop over the children
  (\<open>Validate_children\<close>) and the loop of a list rule over the items (\<open>Validate_items\<close>). In
  \<open>Validate_items\<close> the child of index \<open>i\<close> is read from the children as they stand
  when the loop starts (\<open>cs0\<close>) and written to the children as they stand now (\<open>cs\<close>): a turn
  of the loop writes only the child of its own index, so the child it reads is the same in
  both. The length of the list is read once for the loop: validation assigns only to
  properties that are \<^verbatim>\<open>undefined\<close>, so it does not change a length the loop can end on.\<close>

function Validate :: "jsval \<Rightarrow> rule \<Rightarrow> world \<Rightarrow> unit outcome \<times> rule \<times> world"
  and Validate_children ::
    "jsval \<Rightarrow> (string \<times> rule) list \<Rightarrow> world \<Rightarrow> unit outcome \<times> (string \<times> rule) list \<times> world"
  and Validate_items ::
    "string \<Rightarrow> jsval \<Rightarrow> nat list \<Rightarrow> (string \<times> rule) list \<Rightarrow> (string \<times> rule) list \<Rightarrow> world
     \<Rightarrow> unit outcome \<times> (string \<times> rule) list \<times> world"
where
  "Validate context (Rule n d l rs vs cs ct opt) w =
     (if l then
        (case NotifyListChanged w context (Rule n d l rs vs cs ct opt) of
           (Returned u, this) \<Rightarrow>
             (case list_length w context of
                Returned k \<Rightarrow>
                  (case Validate_items n context [0..<k] (Children this) (Children this) w of
                     (e, cs', w') \<Rightarrow> (e, set_Children cs' this, w'))
              | Raised e \<Rightarrow> (Raised e, this, w)
              | Hangs \<Rightarrow> (Hangs, this, w))
         | (Raised e, this) \<Rightarrow> (Raised e, this, w)
         | (Hangs, this) \<Rightarrow> (Hangs, this, w))
      else
        (case Validate_children context cs w of
           (Returned u, cs1, w1) \<Rightarrow>
             (case Validate_rules context rs w1 of
                (Returned u, rs1, w2) \<Rightarrow>
                  (case Validate_shared context w2 (concat (map snd (ValidationFunctions d))) vs of
                     (e, vs1) \<Rightarrow> (e, Rule n d l rs1 vs1 cs1 ct opt, w2))
              | (e, rs1, w2) \<Rightarrow> (e, Rule n d l rs1 vs cs1 ct opt, w2))
         | (e, cs1, w1) \<Rightarrow> (e, Rule n d l rs vs cs1 ct opt, w1)))"
| "Validate_children context [] w = (Returned (), [], w)"
| "Validate_children context ((key, val) # rest) w =
     (case init_child w context key of
        Inl e \<Rightarrow> (Raised e, (key, val) # rest, w)
      | Inr (v, w1) \<Rightarrow>
          (case Validate v val w1 of
             (Returned u, val', w2) \<Rightarrow>
               (case Validate_children context rest w2 of
                  (e, rest', w3) \<Rightarrow> (e, (key, val') # rest', w3))
           | (e, val', w2) \<Rightarrow> (e, (key, val') # rest, w2)))"
| "Validate_items name context [] cs0 cs w = (Returned (), cs, w)"
| "Validate_items name context (i # is) cs0 cs w =
     (case map_of cs0 (getIndexedKey name i) of
        None \<Rightarrow> Validate_items name context is cs0 cs w
      | Some validationRule \<Rightarrow>
          (case get_prop w context (toString i) of
             Inl e \<Rightarrow> (Raised e, cs, w)
           | Inr item \<Rightarrow>
               (case Validate item validationRule w of
                  (Returned u, r', w1) \<Rightarrow>
                    Validate_items name context is cs0 (AList.update (getIndexedKey name i) r' cs) w1
                | (e, r', w1) \<Rightarrow> (e, AList.update (getIndexedKey name i) r' cs, w1))))"
  by pat_completeness auto

termination
  apply (relation "inv_image (less_than <*lex*> less_than) Validate_measure")
  apply (auto simp: Validate_measure_def cheight_Cons cheight_map_of_lt rheight_Rule
              intro: NotifyListChanged_lt)
  done

subsection \<open>ValidateAsync\<close>

text \<open>Modelled from the spec: \<^verbatim>\<open>Q.all\<close> on promises whose final state is known.\<close>

fun forget :: "'a promise \<Rightarrow> unit promise" where
  "forget Pending = Pending"
| "forget (Fulfilled x) = Fulfilled ()"
| "forget (Rejected e) = Rejected e"

fun all_of :: "unit promise list \<Rightarrow> unit promise" where
  "all_of [] = Fulfilled ()"
| "all_of (Rejected e # ps) = Rejected e"
| "all_of (Fulfilled u # ps) = all_of ps"
| "all_of (Pending # ps) = (case all_of ps of Rejected e \<Rightarrow> Rejected e | _ \<Rightarrow> Pending)"

fun ValidateAsync_rules ::
  "jsval \<Rightarrow> (string \<times> property_rule) list \<Rightarrow> world
   \<Rightarrow> unit promise list outcome \<times> (string \<times> property_rule) list \<times> world" where
  "ValidateAsync_rules context [] w = (Returned [], [], w)"
| "ValidateAsync_rules context ((propName, rule) # rest) w =
     (case PropertyValidationRule_ValidateAsync \<lparr>Key = propName, Data = context\<rparr> rule w of
        (Inl e, rule', w') \<Rightarrow> (Raised e, (propName, rule') # rest, w')
      | (Inr p, rule', w') \<Rightarrow>
          (case ValidateAsync_rules context rest w' of
             (Returned ps, rest', w'') \<Rightarrow> (Returned (forget p # ps), (propName, rule') # rest', w'')
           | (e, rest', w'') \<Rightarrow> (e, (propName, rule') # rest', w'')))"

text \<open>\<^verbatim>\<open>ValidateAsync\<close> of a rule and of a list rule. What it returns is the promise of a
  deferred that the fulfilment handler of \<^verbatim>\<open>Q.all(promises)\<close> resolves; the state given here
  is the one that promise ends in. The callbacks of a property rule are taken to run
  before the next property rule is called: a callback writes to its own rule and to the
  validator object it holds, so the order matters only to the attempted value that a
  validator object shared between property rules is left with.\<close>

function ValidateAsync :: "jsval \<Rightarrow> rule \<Rightarrow> world \<Rightarrow> unit promise outcome \<times> rule \<times> world"
  and ValidateAsync_children ::
    "jsval \<Rightarrow> (string \<times> rule) list \<Rightarrow> world
     \<Rightarrow> unit promise list outcome \<times> (string \<times> rule) list \<times> world"
  and ValidateAsync_items ::
    "string \<Rightarrow> jsval \<Rightarrow> nat list \<Rightarrow> (string \<times> rule) list \<Rightarrow> (string \<times> rule) list \<Rightarrow> world
     \<Rightarrow> unit promise list outcome \<times> (string \<times> rule) list \<times> world"
where
  "ValidateAsync context (Rule n d l rs vs cs ct opt) w =
     (if l then
        (case NotifyListChanged w context (Rule n d l rs vs cs ct opt) of
           (Returned u, this) \<Rightarrow>
             (case list_length w context of
                Returned k \<Rightarrow>
                  (case ValidateAsync_items n context [0..<k] (Children this) (Children this) w of
                     (Returned ps, cs', w') \<Rightarrow>
                       (Returned (returned_promise (all_of ps) ()), set_Children cs' this, w')
                   | (Raised e, cs', w') \<Rightarrow> (Raised e, set_Children cs' this, w')
                   | (Hangs, cs', w') \<Rightarrow> (Hangs, set_Children cs' this, w'))
              | Raised e \<Rightarrow> (Raised e, this, w)
              | Hangs \<Rightarrow> (Hangs, this, w))
         | (Raised e, this) \<Rightarrow> (Raised e, this, w)
         | (Hangs, this) \<Rightarrow> (Hangs, this, w))
      else
        (case ValidateAsync_children context cs w of
           (Returned ps1, cs1, w1) \<Rightarrow>
             (case ValidateAsync_rules context rs w1 of
                (Returned ps2, rs1, w2) \<Rightarrow>
                  (Returned (returned_promise (all_of (ps1 @ ps2)) ()),
                   Rule n d l rs1 vs cs1 ct opt, w2)
              | (Raised e, rs1, w2) \<Rightarrow> (Raised e, Rule n d l rs1 vs cs1 ct opt, w2)
              | (Hangs, rs1, w2) \<Rightarrow> (Hangs, Rule n d l rs1 vs cs1 ct opt, w2))
         | (Raised e, cs1, w1) \<Rightarrow> (Raised e, Rule n d l rs vs cs1 ct opt, w1)
         | (Hangs, cs1, w1) \<Rightarrow> (Hangs, Rule n d l rs vs cs1 ct opt, w1)))"
| "ValidateAsync_children context [] w = (Returned [], [], w)"
| "ValidateAsync_children context ((key, val) # rest) w =
     (case get_prop w context key of
        Inl e \<Rightarrow> (Raised e, (key, val) # rest, w)
      | Inr v \<Rightarrow>
          (case ValidateAsync v val w of
             (Returned p, val', w1) \<Rightarrow>
               (case ValidateAsync_children context rest w1 of
                  (Returned ps, rest', w2) \<Rightarrow> (Returned (p # ps), (key, val') # rest', w2)
                | (e, rest', w2) \<Rightarrow> (e, (key, val') # rest', w2))
           | (Raised e, val', w1) \<Rightarrow> (Raised e, (key, val') # rest, w1)
           | (Hangs, val', w1) \<Rightarrow> (Hangs, (key, val') # rest, w1)))"
| "ValidateAsync_items name context [] cs0 cs w = (Returned [], cs, w)"
| "ValidateAsync_items name context (i # is) cs0 cs w =
     (case map_of cs0 (getIndexedKey name i) of
        None \<Rightarrow> ValidateAsync_items name context is cs0 cs w
      | Some validationRule \<Rightarrow>
          (case get_prop w context (toString i) of
             Inl e \<Rightarrow> (Raised e, cs, w)
           | Inr item \<Rightarrow>
               (case ValidateAsync item validationRule w of
                  (Returned p, r', w1) \<Rightarrow>
                    (case ValidateAsync_items name context is cs0
                            (AList.update (getIndexedKey name i) r' cs) w1 of
                       (Returned ps, cs', w2) \<Rightarrow> (Returned (p # ps), cs', w2)
                     | (e, cs', w2) \<Rightarrow> (e, cs', w2))
                | (Raised e, r', w1) \<Rightarrow> (Raised e, AList.update (getIndexedKey name i) r' cs, w1)
                | (Hangs, r', w1) \<Rightarrow> (Hangs, AList.update (getIndexedKey name i) r' cs, w1))))"
  by pat_completeness auto

termination
  apply (relation "inv_image (less_than <*lex*> less_than) Validate_measure")
  apply (auto simp: Validate_measure_def cheight_Cons cheight_map_of_lt rheight_Rule
              intro: NotifyListChanged_lt)
  done

subsection \<open>ValidateAll and ValidateField\<close>

definition ValidateAll :: "jsval \<Rightarrow> rule \<Rightarrow> world \<Rightarrow> unit outcome \<times> rule \<times> world" where
  "ValidateAll context r w =
     (case Validate context r w of
        (Returned u, r1, w1) \<Rightarrow>
          (case ValidateAsync context r1 w1 of
             (Returned p, r2, w2) \<Rightarrow> (Returned (), r2, w2)
           | (Raised e, r2, w2) \<Rightarrow> (Raised e, r2, w2)
           | (Hangs, r2, w2) \<Rightarrow> (Hangs, r2, w2))
      | (e, r1, w1) \<Rightarrow> (e, r1, w1))"

text \<open>\<^verbatim>\<open>ValidateField\<close>, step by step. The promise of \<^verbatim>\<open>rule.ValidateAsync\<close> is dropped; its
  callbacks run after \<^verbatim>\<open>ValidateField\<close> has returned or thrown, which is the last step
  here.\<close>

definition ValidateField_child ::
  "jsval \<Rightarrow> string \<Rightarrow> rule \<Rightarrow> world \<Rightarrow> unit outcome \<times> rule \<times> world" where
  "ValidateField_child context propName r w =
     (case map_of (Children r) propName of
        None \<Rightarrow> (Returned (), r, w)
      | Some childRule \<Rightarrow>
          (case get_prop w context propName of
             Inl e \<Rightarrow> (Raised e, r, w)
           | Inr v \<Rightarrow>
               (case Validate v childRule w of
                  (e, childRule', w') \<Rightarrow>
                    (e, set_Children (AList.update propName childRule' (Children r)) r, w'))))"

definition ValidateField_rule ::
  "jsval \<Rightarrow> string \<Rightarrow> rule \<Rightarrow> world \<Rightarrow> unit outcome \<times> (async_vars \<times> jsval) option \<times> rule \<times> world" where
  "ValidateField_rule context propName r w =
     (case map_of (Rules r) propName of
        None \<Rightarrow> (Returned (), None, r, w)
      | Some rule \<Rightarrow>
          (let valContext = \<lparr>Key = propName, Data = context\<rparr> in
           case PropertyValidationRule_Validate valContext rule w of
             (Inl e, rule', w') \<Rightarrow>
               (Raised e, None, set_Rules (AList.update propName rule' (Rules r)) r, w')
           | (Inr failures, rule', w') \<Rightarrow>
               (let r' = set_Rules (AList.update propName rule' (Rules r)) r in
                case Value w' valContext of
                  Inl e \<Rightarrow> (Raised e, None, r', w')
                | Inr value \<Rightarrow>
                    (case ValidateAsyncEx_call value rule' w' of
                       (Some e, vars, w'') \<Rightarrow> (Raised e, Some (vars, value), r', w'')
                     | (None, vars, w'') \<Rightarrow> (Returned (), Some (vars, value), r', w'')))))"

definition ValidateField_shared ::
  "jsval \<Rightarrow> string \<Rightarrow> rule \<Rightarrow> world \<Rightarrow> unit outcome \<times> rule" where
  "ValidateField_shared context propName r w =
     (case map_of (ValidationFunctions (rule_validator r)) propName of
        None \<Rightarrow> (Returned (), r)
      | Some validationFces \<Rightarrow>
          (case Validate_shared context w validationFces (rule_Validators r) of
             (e, vs) \<Rightarrow> (e, set_Validators vs r)))"

definition ValidateField_callbacks ::
  "string \<Rightarrow> (async_vars \<times> jsval) option \<Rightarrow> rule \<Rightarrow> world \<Rightarrow> rule \<times> world" where
  "ValidateField_callbacks propName pending r w =
     (case pending of
        None \<Rightarrow> (r, w)
      | Some (vars, value) \<Rightarrow>
          (case map_of (Rules r) propName of
             None \<Rightarrow> (r, w)
           | Some rule \<Rightarrow>
               (case settle_callbacks vars value rule w of
                  (rule', w') \<Rightarrow> (set_Rules (AList.update propName rule' (Rules r)) r, w'))))"

definition ValidateField ::
  "jsval \<Rightarrow> string \<Rightarrow> rule \<Rightarrow> world \<Rightarrow> unit outcome \<times> rule \<times> world" where
  "ValidateField context propName r w =
     (case ValidateField_child context propName r w of
        (Returned u, r1, w1) \<Rightarrow>
          (case ValidateField_rule context propName r1 w1 of
             (Returned u, pending, r2, w2) \<Rightarrow>
               (case ValidateField_shared context propName r2 w2 of
                  (e, r3) \<Rightarrow>
                    (case ValidateField_callbacks propName pending r3 w2 of
                       (r4, w4) \<Rightarrow> (e, r4, w4)))
           | (e, pending, r2, w2) \<Rightarrow>
               (case ValidateField_callbacks propName pending r2 w2 of
                  (r4, w4) \<Rightarrow> (e, r4, w4)))
      | (e, r1, w1) \<Rightarrow> (e, r1, w1))"


section \<open>The passes of a property rule, entry by entry\<close>

text \<open>What the statements below are written with: the outcome of one validator's check as
  the source computes it (\<open>hasError_of\<close>), the calls of \<open>isAcceptable\<close> a pass makes
  (\<open>sync_calls\<close>, \<open>async_calls\<close>), the promises the asynchronous pass collects
  (\<open>async_promises\<close>), and the conditions under which a pass meets no exception (\<open>sync_ok\<close>,
  \<open>async_ok\<close>).\<close>
definition hasError_of :: "jsval \<Rightarrow> validator \<Rightarrow> bool" where
  "hasError_of value validator =
     (if absent value \<and> tagName validator \<noteq> ''required'' then False
      else \<not> truthy (isAcceptable validator value))"

definition same_checks :: "world \<Rightarrow> world \<Rightarrow> bool" where
  "same_checks w w' =
     (\<forall>a. tagName (vstore w' a) = tagName (vstore w a)
        \<and> isAsync (vstore w' a) = isAsync (vstore w a)
        \<and> isAcceptable (vstore w' a) = isAcceptable (vstore w a))"

lemma same_checks_refl: "same_checks w w"
  by (simp add: same_checks_def)

lemma same_checks_trans: "same_checks w w1 \<Longrightarrow> same_checks w1 w2 \<Longrightarrow> same_checks w w2"
  by (simp add: same_checks_def)

lemma record_outcome_frame:
  assumes "record_outcome a value h validation w = (validation', w')"
  shows "same_checks w w'" and "invoked w' = invoked w" and "console w' = console w"
    and "heap w' = heap w" and "next_addr w' = next_addr w"
    and "HasError (Error validation') = h" and "IsAsync validation' = IsAsync validation"
    and "TranslateArgs (Error validation') = Some \<lparr>TranslateId = tagName (vstore w a), MessageArgs = a\<rparr>"
  using assms
  by (auto simp: record_outcome_def extend_AttemptedValue_def same_checks_def Let_def split: if_splits)

definition sync_ok :: "jsval \<Rightarrow> (string \<times> addr) list \<Rightarrow> world \<Rightarrow> string \<times> validation_failure \<Rightarrow> bool" where
  "sync_ok value vs w entry =
     (IsAsync (snd entry) \<or>
      (case map_of vs (fst entry) of
         None \<Rightarrow> False
       | Some a \<Rightarrow>
           (absent value \<and> tagName (vstore w a) \<noteq> ''required'')
           \<or> (\<forall>e. isAcceptable (vstore w a) value \<noteq> Throws e)))"

definition slot_written ::
  "jsval \<Rightarrow> (string \<times> addr) list \<Rightarrow> world \<Rightarrow> string \<times> validation_failure \<Rightarrow> string \<times> validation_failure \<Rightarrow> bool" where
  "slot_written value vs w entry entry' =
     (fst entry' = fst entry \<and> IsAsync (snd entry') = IsAsync (snd entry) \<and>
      (if IsAsync (snd entry) then snd entry' = snd entry
       else (case map_of vs (fst entry) of
               None \<Rightarrow> False
             | Some a \<Rightarrow>
                 HasError (Error (snd entry')) = hasError_of value (vstore w a)
                 \<and> TranslateArgs (Error (snd entry'))
                     = Some \<lparr>TranslateId = tagName (vstore w a), MessageArgs = a\<rparr>)))"

lemma sync_ok_same: "same_checks w w1 \<Longrightarrow> sync_ok value vs w1 = sync_ok value vs w"
  by (rule ext) (simp add: sync_ok_def same_checks_def split: option.splits)

lemma slot_written_same:
  "same_checks w w1 \<Longrightarrow> slot_written value vs w1 = slot_written value vs w"
  by (rule ext, rule ext) (simp add: slot_written_def same_checks_def hasError_of_def split: option.splits)

lemma ValidateEx_loop_all:
  assumes "list_all (sync_ok value vs w) fs"
  shows "\<exists>fs' w'. ValidateEx_loop value vs 0 sc fs w = (None, fs', w')
           \<and> list_all2 (slot_written value vs w) fs fs' \<and> same_checks w w'"
  using assms
proof (induction fs arbitrary: w sc)
  case Nil
  then show ?case by (simp add: same_checks_refl)
next
  case (Cons entry rest)
  obtain index validation where entry: "entry = (index, validation)" by (cases entry)
  from Cons.prems have ok: "sync_ok value vs w (index, validation)"
    and rest: "list_all (sync_ok value vs w) rest" by (simp_all add: entry)
  show ?case
  proof (cases "IsAsync validation")
    case True
    from Cons.IH [OF rest, of sc] obtain fs' w' where
      "ValidateEx_loop value vs 0 sc rest w = (None, fs', w')"
      "list_all2 (slot_written value vs w) rest fs'" "same_checks w w'" by blast
    moreover have "slot_written value vs w (index, validation) (index, validation)"
      using True by (simp add: slot_written_def)
    ultimately show ?thesis using True by (simp add: entry)
  next
    case False
    with ok obtain a where a: "map_of vs index = Some a"
      and nothrow: "(absent value \<and> tagName (vstore w a) \<noteq> ''required'')
           \<or> (\<forall>e. isAcceptable (vstore w a) value \<noteq> Throws e)"
      by (auto simp: sync_ok_def split: option.splits)
    show ?thesis
    proof (cases "absent value \<and> tagName (vstore w a) \<noteq> ''required''")
      case True
      obtain validation' w1 where ro: "record_outcome a value False validation w = (validation', w1)"
        by (cases "record_outcome a value False validation w")
      note fr = record_outcome_frame [OF ro]
      from rest fr(1) have "list_all (sync_ok value vs w1) rest"
        by (simp add: sync_ok_same)
      from Cons.IH [OF this, of False] obtain fs' w' where
        l: "ValidateEx_loop value vs 0 False rest w1 = (None, fs', w')"
        and s: "list_all2 (slot_written value vs w1) rest fs'" and c: "same_checks w1 w'" by blast
      from s fr(1) have s': "list_all2 (slot_written value vs w) rest fs'"
        by (simp add: slot_written_same [OF fr(1)])
      have "slot_written value vs w (index, validation) (index, validation')"
        using False a True fr by (simp add: slot_written_def hasError_of_def)
      with l s' c fr(1) False a True ro show ?thesis
        by (auto simp: entry intro: same_checks_trans)
    next
      case notabsent: False
      let ?w0 = "w\<lparr>invoked := invoked w @ [(a, value)]\<rparr>"
      let ?r = "isAcceptable (vstore w a) value"
      from nothrow notabsent have nt: "\<forall>e. ?r \<noteq> Throws e" by blast
      have c0: "same_checks w ?w0" by (simp add: same_checks_def)
      obtain validation' w1 where ro: "record_outcome a value (\<not> truthy ?r) validation ?w0 = (validation', w1)"
        by (cases "record_outcome a value (\<not> truthy ?r) validation ?w0")
      note fr = record_outcome_frame [OF ro]
      have c1: "same_checks w w1" using c0 fr(1) by (rule same_checks_trans)
      from rest c1 have "list_all (sync_ok value vs w1) rest"
        by (simp add: sync_ok_same)
      from Cons.IH [OF this, of "\<not> truthy ?r"] obtain fs' w' where
        l: "ValidateEx_loop value vs 0 (\<not> truthy ?r) rest w1 = (None, fs', w')"
        and s: "list_all2 (slot_written value vs w1) rest fs'" and c: "same_checks w1 w'" by blast
      from s have s': "list_all2 (slot_written value vs w) rest fs'"
        by (simp add: slot_written_same [OF c1])
      have sw: "slot_written value vs w (index, validation) (index, validation')"
        using False a notabsent fr by (auto simp: slot_written_def hasError_of_def)
      have cw: "same_checks w w'" using c1 c by (rule same_checks_trans)
      show ?thesis
        using l s' cw False a notabsent ro nt sw
        by (cases ?r) (auto simp: entry)
    qed
  qed
qed

fun sync_calls ::
  "jsval \<Rightarrow> (string \<times> addr) list \<Rightarrow> world \<Rightarrow> (string \<times> validation_failure) list \<Rightarrow> (addr \<times> jsval) list" where
  "sync_calls value vs w [] = []"
| "sync_calls value vs w ((tag, item) # rest) =
     (case map_of vs tag of
        None \<Rightarrow> sync_calls value vs w rest
      | Some a \<Rightarrow>
          if \<not> IsAsync item \<and> \<not> (absent value \<and> tagName (vstore w a) \<noteq> ''required'')
          then (a, value) # sync_calls value vs w rest
          else sync_calls value vs w rest)"

lemma sync_calls_same: "same_checks w w1 \<Longrightarrow> sync_calls value vs w1 fs = sync_calls value vs w fs"
  by (induction fs) (auto simp: same_checks_def split: option.splits)

lemma sync_calls_checked:
  "(a, v) \<in> set (sync_calls value vs w fs) \<Longrightarrow>
     v = value \<and> \<not> (absent value \<and> tagName (vstore w a) \<noteq> ''required'')"
  by (induction fs) (auto split: option.splits if_splits)

lemma ValidateEx_loop_invoked:
  "ValidateEx_loop value vs 0 sc fs w = (None, fs', w') \<Longrightarrow>
     invoked w' = invoked w @ sync_calls value vs w fs \<and> console w' = console w"
proof (induction fs arbitrary: w sc fs')
  case Nil
  then show ?case by simp
next
  case (Cons entry rest)
  obtain index validation where entry: "entry = (index, validation)" by (cases entry)
  show ?case
  proof (cases "IsAsync validation")
    case True
    with Cons.prems obtain r' where "ValidateEx_loop value vs 0 sc rest w = (None, r', w')"
      by (auto simp: entry split: prod.splits)
    from Cons.IH [OF this] True show ?thesis by (simp add: entry split: option.splits)
  next
    case False
    with Cons.prems obtain a where a: "map_of vs index = Some a"
      by (auto simp: entry split: option.splits)
    show ?thesis
    proof (cases "absent value \<and> tagName (vstore w a) \<noteq> ''required''")
      case True
      obtain validation' w1 where ro: "record_outcome a value False validation w = (validation', w1)"
        by (cases "record_outcome a value False validation w")
      note fr = record_outcome_frame [OF ro]
      from Cons.prems False a True ro obtain r' where
        "ValidateEx_loop value vs 0 False rest w1 = (None, r', w')"
        by (auto simp: entry split: prod.splits)
      from Cons.IH [OF this] fr False a True show ?thesis
        by (simp add: entry sync_calls_same [OF fr(1)])
    next
      case notabsent: False
      let ?w0 = "w\<lparr>invoked := invoked w @ [(a, value)]\<rparr>"
      let ?r = "isAcceptable (vstore w a) value"
      obtain validation' w1 where ro: "record_outcome a value (\<not> truthy ?r) validation ?w0 = (validation', w1)"
        by (cases "record_outcome a value (\<not> truthy ?r) validation ?w0")
      note fr = record_outcome_frame [OF ro]
      have c1: "same_checks w w1" using fr(1) by (simp add: same_checks_def)
      from Cons.prems False a notabsent ro obtain r' where
        "ValidateEx_loop value vs 0 (\<not> truthy ?r) rest w1 = (None, r', w')"
        by (cases ?r) (auto simp: entry split: prod.splits)
      from Cons.IH [OF this] fr False a notabsent show ?thesis
        by (auto simp: entry sync_calls_same [OF c1])
    qed
  qed
qed

lemma ValidateEx_loop_shortCircuited:
  "ValidateEx_loop value vs 0 sc fs w = ValidateEx_loop value vs 0 sc' fs w"
proof (induction fs arbitrary: w)
  case Nil
  show ?case by simp
next
  case (Cons entry rest)
  obtain index validation where entry: "entry = (index, validation)" by (cases entry)
  show ?case
    unfolding entry by (cases "map_of vs index") (simp_all add: Let_def Cons.IH)
qed

text \<open>C4. When no synchronous validator of the property throws on the value, \<open>ValidateEx\<close>
  returns, and entry by entry of \<open>ValidationFailures\<close> (\<open>slot_written\<close>): an asynchronous
  entry is left as it was, and the slot of every synchronous validator holds the outcome
  of that validator's own check, \<open>hasError_of\<close>, with its translate arguments, whatever the
  validators before it found. The checks called are those of all synchronous validators,
  in order, that the absent-value rule does not excuse (\<open>sync_calls\<close>). The variable
  \<^verbatim>\<open>shortCircuited\<close> has no effect: with \<^verbatim>\<open>lastPriority\<close> at 0, where the loop starts and stays,
  the loop does the same whether it is true or false.\<close>

theorem ValidateEx_checks_every_validator:
  assumes "list_all (sync_ok value (Validators rule) w) (ValidationFailures rule)"
  shows "\<exists>failures rule' w'.
           ValidateEx value rule w = (Inr failures, rule', w')
         \<and> list_all2 (slot_written value (Validators rule) w)
              (ValidationFailures rule) (ValidationFailures rule')
         \<and> invoked w' = invoked w @ sync_calls value (Validators rule) w (ValidationFailures rule)
         \<and> ValidateEx_loop value (Validators rule) 0 True (ValidationFailures rule) w
             = ValidateEx_loop value (Validators rule) 0 False (ValidationFailures rule) w"
proof -
  from ValidateEx_loop_all [OF assms, of False] obtain fs' w' where
    l: "ValidateEx_loop value (Validators rule) 0 False (ValidationFailures rule) w = (None, fs', w')"
    and s: "list_all2 (slot_written value (Validators rule) w) (ValidationFailures rule) fs'"
    by blast
  from ValidateEx_loop_invoked [OF l] l s show ?thesis
    by (simp add: ValidateEx_def ValidateEx_loop_shortCircuited [of _ _ True _ _ False])
qed

definition async_ok :: "jsval \<Rightarrow> (string \<times> addr) list \<Rightarrow> world \<Rightarrow> string \<times> validation_failure \<Rightarrow> bool" where
  "async_ok value vs w entry =
     (\<not> IsAsync (snd entry) \<or>
      (case map_of vs (fst entry) of
         None \<Rightarrow> False
       | Some a \<Rightarrow>
           (absent value \<and> tagName (vstore w a) \<noteq> ''required'')
           \<or> (\<exists>p. isAcceptable (vstore w a) value = Promise p)))"

fun async_calls ::
  "jsval \<Rightarrow> (string \<times> addr) list \<Rightarrow> world \<Rightarrow> (string \<times> validation_failure) list \<Rightarrow> (addr \<times> jsval) list" where
  "async_calls value vs w [] = []"
| "async_calls value vs w ((tag, item) # rest) =
     (case map_of vs tag of
        None \<Rightarrow> async_calls value vs w rest
      | Some a \<Rightarrow>
          if IsAsync item \<and> \<not> (absent value \<and> tagName (vstore w a) \<noteq> ''required'')
          then (a, value) # async_calls value vs w rest
          else async_calls value vs w rest)"

fun async_promises ::
  "jsval \<Rightarrow> (string \<times> addr) list \<Rightarrow> world \<Rightarrow> (string \<times> validation_failure) list \<Rightarrow> (addr \<times> settle) list" where
  "async_promises value vs w [] = []"
| "async_promises value vs w ((tag, item) # rest) =
     (case map_of vs tag of
        None \<Rightarrow> async_promises value vs w rest
      | Some a \<Rightarrow>
          if \<not> IsAsync item then async_promises value vs w rest
          else if absent value \<and> tagName (vstore w a) \<noteq> ''required''
          then (a, Fulfils 0 True) # async_promises value vs w rest
          else (case isAcceptable (vstore w a) value of
                  Promise p \<Rightarrow> (a, p) # async_promises value vs w rest
                | _ \<Rightarrow> async_promises value vs w rest))"

lemma async_calls_checked:
  "(a, v) \<in> set (async_calls value vs w fs) \<Longrightarrow>
     v = value \<and> \<not> (absent value \<and> tagName (vstore w a) \<noteq> ''required'')"
  by (induction fs) (auto split: option.splits if_splits)

lemma async_promises_absent:
  "(a, p) \<in> set (async_promises value vs w fs) \<Longrightarrow> absent value \<Longrightarrow>
     tagName (vstore w a) \<noteq> ''required'' \<Longrightarrow> p = Fulfils 0 True"
  by (induction fs) (auto split: option.splits if_splits acceptance.splits)

lemma async_ok_invoked: "async_ok value vs (w\<lparr>invoked := i\<rparr>) = async_ok value vs w"
  by (rule ext) (simp add: async_ok_def split: option.splits)

lemma async_calls_invoked: "async_calls value vs (w\<lparr>invoked := i\<rparr>) fs = async_calls value vs w fs"
  by (induction fs) (auto split: option.splits)

lemma async_promises_invoked:
  "async_promises value vs (w\<lparr>invoked := i\<rparr>) fs = async_promises value vs w fs"
  by (induction fs) (auto split: option.splits acceptance.splits)

fun async_validators :: "(string \<times> addr) list \<Rightarrow> (string \<times> validation_failure) list \<Rightarrow> addr list" where
  "async_validators vs [] = []"
| "async_validators vs ((tag, item) # rest) =
     (case map_of vs tag of
        None \<Rightarrow> async_validators vs rest
      | Some a \<Rightarrow> if IsAsync item then a # async_validators vs rest else async_validators vs rest)"

lemma async_promises_validators:
  "list_all (async_ok value vs w) fs \<Longrightarrow> map fst (async_promises value vs w fs) = async_validators vs fs"
  by (induction fs) (auto simp: async_ok_def split: option.splits)

definition vars_after ::
  "jsval \<Rightarrow> (string \<times> addr) list \<Rightarrow> world \<Rightarrow> (string \<times> validation_failure) list \<Rightarrow> async_vars \<Rightarrow> async_vars" where
  "vars_after value vs w fs vars =
     \<lparr>validation_var = (if fs = [] then validation_var vars else Some (fst (last fs))),
      validator_var =
        (if async_validators vs fs = [] then validator_var vars else Some (last (async_validators vs fs))),
      promises = promises vars @ map snd (async_promises value vs w fs)\<rparr>"

lemma vars_after_invoked: "vars_after value vs (w\<lparr>invoked := i\<rparr>) fs vars = vars_after value vs w fs vars"
  by (simp add: vars_after_def async_promises_invoked)

lemma vars_after_Nil: "vars_after value vs w [] vars = vars"
  by (simp add: vars_after_def)

lemma ValidateAsyncEx_loop_all:
  assumes "list_all (async_ok value vs w) fs"
  shows "ValidateAsyncEx_loop value vs fs vars w =
           (None, vars_after value vs w fs vars, w\<lparr>invoked := invoked w @ async_calls value vs w fs\<rparr>)"
  using assms
proof (induction fs arbitrary: vars w)
  case Nil
  then show ?case by (simp add: vars_after_Nil)
next
  case (Cons entry rest)
  obtain index validation where entry: "entry = (index, validation)" by (cases entry)
  from Cons.prems have ok: "async_ok value vs w (index, validation)"
    and rest: "list_all (async_ok value vs w) rest" by (simp_all add: entry)
  show ?case
  proof (cases "IsAsync validation")
    case False
    from Cons.IH [OF rest, of "vars\<lparr>validation_var := Some index\<rparr>"] False show ?thesis
      by (auto simp: entry Let_def vars_after_def split: option.splits)
  next
    case True
    with ok obtain a where a: "map_of vs index = Some a"
      and p: "(absent value \<and> tagName (vstore w a) \<noteq> ''required'')
           \<or> (\<exists>p. isAcceptable (vstore w a) value = Promise p)"
      by (auto simp: async_ok_def split: option.splits)
    show ?thesis
    proof (cases "absent value \<and> tagName (vstore w a) \<noteq> ''required''")
      case short: True
      let ?vars = "vars\<lparr>validation_var := Some index, validator_var := Some a,
                        promises := promises vars @ [Fulfils 0 True]\<rparr>"
      from Cons.IH [OF rest, of ?vars] True a short show ?thesis
        by (auto simp: entry Let_def vars_after_def)
    next
      case False
      with p obtain pr where pr: "isAcceptable (vstore w a) value = Promise pr" by blast
      let ?w0 = "w\<lparr>invoked := invoked w @ [(a, value)]\<rparr>"
      from rest have rest0: "list_all (async_ok value vs ?w0) rest"
        by (simp add: async_ok_invoked)
      let ?vars = "vars\<lparr>validation_var := Some index, validator_var := Some a,
                        promises := promises vars @ [pr]\<rparr>"
      from Cons.IH [OF rest0, of ?vars] True a False pr show ?thesis
        by (auto simp: entry Let_def vars_after_def async_calls_invoked async_promises_invoked)
    qed
  qed
qed

lemma callback_writes:
  assumes "validation_var vars = Some index" and "validator_var vars = Some a"
    and "map_of (ValidationFailures rule) index = Some validation"
  shows "\<exists>validation'.
           map_of (ValidationFailures (fst (callback vars value result rule w))) index = Some validation'
         \<and> HasError (Error validation') = (\<not> result)
         \<and> (\<forall>tag. tag \<noteq> index \<longrightarrow>
               map_of (ValidationFailures (fst (callback vars value result rule w))) tag
                 = map_of (ValidationFailures rule) tag)"
  using assms
  by (auto simp: callback_def record_outcome_def Let_def update_conv')

section \<open>Examples for the property rule\<close>

text \<open>Validators, a world and nodes for the closed instances below. The validator objects
  are at the addresses 0 and 2 to 5: \<open>required\<close> accepts everything but an absent value and the
  empty string; \<open>maxlength\<close> accepts strings of up to three characters; \<open>contains\<close> is
  asynchronous and accepts \<open>A\<close> and \<open>B\<close>; \<open>remote\<close> is asynchronous and its promise is
  rejected; the check of \<open>custom\<close> throws. The world has one data object, at address
  0, with the flag \<open>Checked\<close>; its \<open>format\<close> returns the template. The error that a new
  node starts with is a parameter of the world \<open>w0\<close>: what is evaluated in it below holds
  for every such error. Where a closed instance needs one, it is \<open>unwritten\<close>.\<close>

definition required_validator :: validator where
  "required_validator =
     \<lparr>tagName = ''required'', isAsync = False,
      isAcceptable = (\<lambda>value. Returns (\<not> absent value \<and> value \<noteq> JStr [])), params = []\<rparr>"

definition maxlength_validator :: validator where
  "maxlength_validator =
     \<lparr>tagName = ''maxlength'', isAsync = False,
      isAcceptable = (\<lambda>value. Returns (case value of JStr s \<Rightarrow> length s \<le> 3 | _ \<Rightarrow> True)),
      params = [(''MaxLength'', JNum 3)]\<rparr>"

definition contains_validator :: validator where
  "contains_validator =
     \<lparr>tagName = ''contains'', isAsync = True,
      isAcceptable = (\<lambda>value. Promise (Fulfils 1 (value = JStr ''A'' \<or> value = JStr ''B''))),
      params = []\<rparr>"

definition remote_validator :: validator where
  "remote_validator =
     \<lparr>tagName = ''remote'', isAsync = True,
      isAcceptable = (\<lambda>value. Promise (Rejects 1 (Thrown ''offline''))), params = []\<rparr>"

definition faulty_validator :: validator where
  "faulty_validator =
     \<lparr>tagName = ''custom'', isAsync = False,
      isAcceptable = (\<lambda>value. Throws (Thrown ''boom'')), params = []\<rparr>"

definition example_validators :: "addr \<Rightarrow> validator" where
  "example_validators a =
     (if a = 5 then maxlength_validator else if a = 2 then contains_validator
      else if a = 3 then remote_validator else if a = 4 then faulty_validator
      else required_validator)"

definition unwritten :: error where
  "unwritten = \<lparr>HasError = True, ErrorMessage = [], TranslateArgs = None\<rparr>"

definition example_world :: "bool \<Rightarrow> world" where
  "example_world checked =
     \<lparr>vstore = example_validators,
      heap = [0 \<mapsto> Object [(''Checked'', JBool checked)]],
      next_addr = 1, console = [], invoked = [],
      ValidationMessages = defaultMessages, format = (\<lambda>template validator. template),
      new_Error = unwritten\<rparr>"

definition w0 :: "error \<Rightarrow> world" where
  "w0 e0 = (example_world True)\<lparr>new_Error := e0\<rparr>"

text \<open>The predicate of the test suite, \<^verbatim>\<open>function () { return !this.Checked }\<close> bound to a data
  object: here the object at address 0.\<close>

definition not_Checked :: "world \<Rightarrow> bool" where
  "not_Checked w = (get_prop w (JRef 0) ''Checked'' \<noteq> Inr (JBool True))"

definition failing_rule :: property_rule where
  "failing_rule =
     \<lparr>Name = ''Email'', Validators = [(''required'', 0)],
      ValidationFailures =
        [(''required'',
          \<lparr>Error = \<lparr>HasError = True, ErrorMessage = ''This field is required.'',
                     TranslateArgs = Some \<lparr>TranslateId = ''required'', MessageArgs = 0\<rparr>\<rparr>,
           IsAsync = False\<rparr>)],
      Optional = Some not_Checked\<rparr>"

definition failing_validator :: shared_validator where
  "failing_validator =
     \<lparr>Validator_Name = ''OneContact'', ValidateFce = (\<lambda>w c err. (None, err)),
      Validator_Error = \<lparr>HasError = True, ErrorMessage = ''Fill in a contact.'', TranslateArgs = None\<rparr>,
      Validator_Optional = Some not_Checked\<rparr>"

text \<open>What the slots of a property rule show: for each tag whether it reports a failure,
  and the tag its translate arguments name.\<close>

definition slots :: "property_rule \<Rightarrow> (string \<times> bool \<times> string option) list" where
  "slots rule =
     map (\<lambda>(tag, item). (tag, HasError (Error item), map_option TranslateId (TranslateArgs (Error item))))
       (ValidationFailures rule)"

lemma w0_fields:
  "vstore (w0 e0) = example_validators" "invoked (w0 e0) = []" "console (w0 e0) = []"
  "ValidationMessages (w0 e0) = defaultMessages" "format (w0 e0) = (\<lambda>template validator. template)"
  "next_addr (w0 e0) = 1" "heap (w0 e0) = [0 \<mapsto> Object [(''Checked'', JBool True)]]"
  "new_Error (w0 e0) = e0"
  by (simp_all add: w0_def example_world_def)

lemma example_validators_at:
  "example_validators 0 = required_validator" "example_validators 5 = maxlength_validator"
  "example_validators 2 = contains_validator" "example_validators 3 = remote_validator"
  "example_validators 4 = faulty_validator"
  by (simp_all add: example_validators_def)

lemmas ex_defs = w0_fields example_validators_at required_validator_def
  maxlength_validator_def contains_validator_def remote_validator_def faulty_validator_def

lemma code_rule:
  "PropertyValidationRule (w0 e0) ''Code'' [2, 0] =
     \<lparr>Name = ''Code'', Validators = [(''contains'', 2), (''required'', 0)],
      ValidationFailures = [(''contains'', \<lparr>Error = e0, IsAsync = True\<rparr>),
                            (''required'', \<lparr>Error = e0, IsAsync = False\<rparr>)],
      Optional = None\<rparr>"
  by (simp add: PropertyValidationRule_def AddValidator_def ex_defs)

lemma list_all2_fst_snd:
  "(\<And>a p. (a, p) \<in> set xs \<Longrightarrow> P a p) \<Longrightarrow> list_all2 P (map fst xs) (map snd xs)"
  by (induction xs) auto

text \<open>What both passes do on an absent value (\<^verbatim>\<open>undefined\<close> or \<^verbatim>\<open>null\<close>), when the checks that
  are called do not fail (throw; or, for an asynchronous validator, return something else
  than a promise):
  \<^item> \<open>ValidateEx\<close> returns; the slot of every synchronous validator whose tag is not
    \<open>required\<close> reports no error;
  \<^item> the call of \<open>ValidateAsyncEx\<close> returns; the promise of every asynchronous validator
    whose tag is not \<open>required\<close> is \<^verbatim>\<open>Q.when(true)\<close>, and the callback run with that result
    writes \<open>HasError = False\<close> into the slot the variable \<^verbatim>\<open>validation\<close> holds;
  \<^item> in both passes the only calls of \<open>isAcceptable\<close> are those of validators tagged
    \<open>required\<close>.\<close>

lemma absent_value_calls:
  assumes "absent value"
    and "list_all (sync_ok value (Validators rule) w) (ValidationFailures rule)"
    and "list_all (async_ok value (Validators rule) w) (ValidationFailures rule)"
  shows "(\<exists>failures rule' w'.
            ValidateEx value rule w = (Inr failures, rule', w')
          \<and> list_all2
               (\<lambda>entry entry'. \<forall>a.
                   \<not> IsAsync (snd entry) \<and> map_of (Validators rule) (fst entry) = Some a
                   \<and> tagName (vstore w a) \<noteq> ''required''
                   \<longrightarrow> fst entry' = fst entry \<and> \<not> HasError (Error (snd entry')))
               (ValidationFailures rule) (ValidationFailures rule')
          \<and> invoked w' = invoked w @ sync_calls value (Validators rule) w (ValidationFailures rule))
       \<and> (\<exists>vars w'.
            ValidateAsyncEx_call value rule w = (None, vars, w')
          \<and> invoked w' = invoked w @ async_calls value (Validators rule) w (ValidationFailures rule)
          \<and> list_all2 (\<lambda>a p. tagName (vstore w a) \<noteq> ''required'' \<longrightarrow> p = Fulfils 0 True)
               (async_validators (Validators rule) (ValidationFailures rule)) (promises vars)
          \<and> (\<forall>index a validation rule1 w1.
                 validation_var vars = Some index \<and> validator_var vars = Some a
                 \<and> map_of (ValidationFailures rule1) index = Some validation
                 \<longrightarrow> (\<exists>validation'.
                        map_of (ValidationFailures (fst (callback vars value True rule1 w1))) index
                          = Some validation'
                      \<and> \<not> HasError (Error validation'))))
       \<and> (\<forall>a v. (a, v) \<in> set (sync_calls value (Validators rule) w (ValidationFailures rule)
                              @ async_calls value (Validators rule) w (ValidationFailures rule))
                \<longrightarrow> tagName (vstore w a) = ''required'')"
proof (intro conjI)
  let ?vs = "Validators rule" and ?fs = "ValidationFailures rule"
  from ValidateEx_loop_all [OF assms(2), of False] obtain fs' w' where
    l: "ValidateEx_loop value ?vs 0 False ?fs w = (None, fs', w')"
    and s: "list_all2 (slot_written value ?vs w) ?fs fs'"
    by blast
  have "list_all2
          (\<lambda>entry entry'. \<forall>a.
              \<not> IsAsync (snd entry) \<and> map_of ?vs (fst entry) = Some a
              \<and> tagName (vstore w a) \<noteq> ''required''
              \<longrightarrow> fst entry' = fst entry \<and> \<not> HasError (Error (snd entry'))) ?fs fs'"
    using s
    by (rule list_all2_mono) (use assms(1) in \<open>auto simp: slot_written_def hasError_of_def\<close>)
  with l ValidateEx_loop_invoked [OF l]
  show "\<exists>failures rule' w'.
            ValidateEx value rule w = (Inr failures, rule', w')
          \<and> list_all2
               (\<lambda>entry entry'. \<forall>a.
                   \<not> IsAsync (snd entry) \<and> map_of ?vs (fst entry) = Some a
                   \<and> tagName (vstore w a) \<noteq> ''required''
                   \<longrightarrow> fst entry' = fst entry \<and> \<not> HasError (Error (snd entry')))
               ?fs (ValidationFailures rule')
          \<and> invoked w' = invoked w @ sync_calls value ?vs w ?fs"
    by (simp add: ValidateEx_def)
next
  let ?vs = "Validators rule" and ?fs = "ValidationFailures rule"
  let ?vars = "vars_after value ?vs w ?fs no_vars"
  have call: "ValidateAsyncEx_call value rule w
                = (None, ?vars, w\<lparr>invoked := invoked w @ async_calls value ?vs w ?fs\<rparr>)"
    by (simp add: ValidateAsyncEx_call_def ValidateAsyncEx_loop_all [OF assms(3)])
  have p: "promises ?vars = map snd (async_promises value ?vs w ?fs)"
    by (simp add: vars_after_def no_vars_def)
  have "list_all2 (\<lambda>a p. tagName (vstore w a) \<noteq> ''required'' \<longrightarrow> p = Fulfils 0 True)
          (map fst (async_promises value ?vs w ?fs)) (map snd (async_promises value ?vs w ?fs))"
    using assms(1) by (intro list_all2_fst_snd) (auto dest: async_promises_absent)
  then have ps: "list_all2 (\<lambda>a p. tagName (vstore w a) \<noteq> ''required'' \<longrightarrow> p = Fulfils 0 True)
          (async_validators ?vs ?fs) (promises ?vars)"
    by (simp add: p async_promises_validators [OF assms(3)])
  have cb: "\<exists>validation'.
              map_of (ValidationFailures (fst (callback vars value True rule1 w1))) index = Some validation'
            \<and> \<not> HasError (Error validation')"
    if "validation_var vars = Some index" "validator_var vars = Some a"
      "map_of (ValidationFailures rule1) index = Some validation"
    for vars index a validation rule1 w1
    using callback_writes [OF that, of "value" True w1] by auto
  show "\<exists>vars w'.
            ValidateAsyncEx_call value rule w = (None, vars, w')
          \<and> invoked w' = invoked w @ async_calls value ?vs w ?fs
          \<and> list_all2 (\<lambda>a p. tagName (vstore w a) \<noteq> ''required'' \<longrightarrow> p = Fulfils 0 True)
               (async_validators ?vs ?fs) (promises vars)
          \<and> (\<forall>index a validation rule1 w1.
                 validation_var vars = Some index \<and> validator_var vars = Some a
                 \<and> map_of (ValidationFailures rule1) index = Some validation
                 \<longrightarrow> (\<exists>validation'.
                        map_of (ValidationFailures (fst (callback vars value True rule1 w1))) index
                          = Some validation'
                      \<and> \<not> HasError (Error validation')))"
    using call ps cb by (intro exI [of _ ?vars] exI [of _ "w\<lparr>invoked := invoked w @ async_calls value ?vs w ?fs\<rparr>"]) auto
next
  show "\<forall>a v. (a, v) \<in> set (sync_calls value (Validators rule) w (ValidationFailures rule)
                              @ async_calls value (Validators rule) w (ValidationFailures rule))
                \<longrightarrow> tagName (vstore w a) = ''required''"
    using assms(1) by (auto dest: sync_calls_checked async_calls_checked)
qed

lemma email_rule:
  "PropertyValidationRule (w0 e0) ''Email'' [0, 5] =
     \<lparr>Name = ''Email'', Validators = [(''required'', 0), (''maxlength'', 5)],
      ValidationFailures = [(''required'', \<lparr>Error = e0, IsAsync = False\<rparr>),
                            (''maxlength'', \<lparr>Error = e0, IsAsync = False\<rparr>)],
      Optional = None\<rparr>"
  by (simp add: PropertyValidationRule_def AddValidator_def ex_defs)

theorem ValidateEx_checks_every_validator_witness:
  "list_all (sync_ok (JStr []) (Validators (PropertyValidationRule (w0 unwritten) ''Email'' [0, 5])) (w0 unwritten))
     (ValidationFailures (PropertyValidationRule (w0 unwritten) ''Email'' [0, 5]))
   \<and> hasError_of (JStr []) (vstore (w0 unwritten) 0) \<and> \<not> hasError_of (JStr []) (vstore (w0 unwritten) 5)
   \<and> sync_calls (JStr []) (Validators (PropertyValidationRule (w0 unwritten) ''Email'' [0, 5])) (w0 unwritten)
        (ValidationFailures (PropertyValidationRule (w0 unwritten) ''Email'' [0, 5])) = [(0, JStr []), (5, JStr [])]
   \<and> (\<exists>failures rule' w'.
         ValidateEx (JStr []) (PropertyValidationRule (w0 unwritten) ''Email'' [0, 5]) (w0 unwritten) = (Inr failures, rule', w')
       \<and> list_all2 (slot_written (JStr []) (Validators (PropertyValidationRule (w0 unwritten) ''Email'' [0, 5])) (w0 unwritten))
            (ValidationFailures (PropertyValidationRule (w0 unwritten) ''Email'' [0, 5])) (ValidationFailures rule')
       \<and> invoked w' = [(0, JStr []), (5, JStr [])])"
proof -
  let ?R = "PropertyValidationRule (w0 unwritten) ''Email'' [0, 5]"
  have h: "list_all (sync_ok (JStr []) (Validators ?R) (w0 unwritten)) (ValidationFailures ?R)"
    by (simp add: email_rule sync_ok_def ex_defs)
  have c: "sync_calls (JStr []) (Validators ?R) (w0 unwritten) (ValidationFailures ?R) = [(0, JStr []), (5, JStr [])]"
    by (simp add: email_rule absent_def ex_defs)
  have e: "hasError_of (JStr []) (vstore (w0 unwritten) 0)" "\<not> hasError_of (JStr []) (vstore (w0 unwritten) 5)"
    by (simp_all add: hasError_of_def absent_def ex_defs)
  show ?thesis
    using ValidateEx_checks_every_validator [OF h] h c e by (simp add: w0_fields) blast
qed

lemma code3_rule:
  "PropertyValidationRule (w0 e0) ''Code'' [0, 5, 2] =
     \<lparr>Name = ''Code'', Validators = [(''required'', 0), (''maxlength'', 5), (''contains'', 2)],
      ValidationFailures = [(''required'', \<lparr>Error = e0, IsAsync = False\<rparr>),
                            (''maxlength'', \<lparr>Error = e0, IsAsync = False\<rparr>),
                            (''contains'', \<lparr>Error = e0, IsAsync = True\<rparr>)],
      Optional = None\<rparr>"
  by (simp add: PropertyValidationRule_def AddValidator_def ex_defs)

lemma absent_value_calls_example:
  "absent Undefined
   \<and> list_all (sync_ok Undefined (Validators (PropertyValidationRule (w0 unwritten) ''Code'' [0, 5, 2])) (w0 unwritten))
       (ValidationFailures (PropertyValidationRule (w0 unwritten) ''Code'' [0, 5, 2]))
   \<and> list_all (async_ok Undefined (Validators (PropertyValidationRule (w0 unwritten) ''Code'' [0, 5, 2])) (w0 unwritten))
       (ValidationFailures (PropertyValidationRule (w0 unwritten) ''Code'' [0, 5, 2]))
   \<and> sync_calls Undefined (Validators (PropertyValidationRule (w0 unwritten) ''Code'' [0, 5, 2])) (w0 unwritten)
        (ValidationFailures (PropertyValidationRule (w0 unwritten) ''Code'' [0, 5, 2])) = [(0, Undefined)]
   \<and> async_calls Undefined (Validators (PropertyValidationRule (w0 unwritten) ''Code'' [0, 5, 2])) (w0 unwritten)
        (ValidationFailures (PropertyValidationRule (w0 unwritten) ''Code'' [0, 5, 2])) = []
   \<and> async_validators (Validators (PropertyValidationRule (w0 unwritten) ''Code'' [0, 5, 2]))
        (ValidationFailures (PropertyValidationRule (w0 unwritten) ''Code'' [0, 5, 2])) = [2]
   \<and> (\<exists>failures rule' w'.
         ValidateEx Undefined (PropertyValidationRule (w0 unwritten) ''Code'' [0, 5, 2]) (w0 unwritten) = (Inr failures, rule', w')
       \<and> invoked w' = [(0, Undefined)])
   \<and> (\<exists>vars w'.
         ValidateAsyncEx_call Undefined (PropertyValidationRule (w0 unwritten) ''Code'' [0, 5, 2]) (w0 unwritten) = (None, vars, w')
       \<and> invoked w' = [] \<and> promises vars = [Fulfils 0 True])"
proof -
  let ?R = "PropertyValidationRule (w0 unwritten) ''Code'' [0, 5, 2]"
  have a: "absent Undefined" by (simp add: absent_def)
  have s: "list_all (sync_ok Undefined (Validators ?R) (w0 unwritten)) (ValidationFailures ?R)"
    by (simp add: code3_rule sync_ok_def ex_defs)
  have as: "list_all (async_ok Undefined (Validators ?R) (w0 unwritten)) (ValidationFailures ?R)"
    by (simp add: code3_rule async_ok_def absent_def ex_defs)
  have c: "sync_calls Undefined (Validators ?R) (w0 unwritten) (ValidationFailures ?R) = [(0, Undefined)]"
    "async_calls Undefined (Validators ?R) (w0 unwritten) (ValidationFailures ?R) = []"
    "async_validators (Validators ?R) (ValidationFailures ?R) = [2]"
    by (simp_all add: code3_rule absent_def ex_defs)
  from absent_value_calls [OF a s as]
  have "(\<exists>failures rule' w'.
           ValidateEx Undefined ?R (w0 unwritten) = (Inr failures, rule', w') \<and> invoked w' = [(0, Undefined)])
      \<and> (\<exists>vars w'.
           ValidateAsyncEx_call Undefined ?R (w0 unwritten) = (None, vars, w')
         \<and> invoked w' = [] \<and> promises vars = [Fulfils 0 True])"
    unfolding c by (simp add: w0_fields list_all2_Cons1 ex_defs) blast
  with a s as c show ?thesis by simp
qed

text \<open>Whatever the validators and their promises: an asynchronous pass that returns writes
  to no slot but the last one of the property rule.\<close>

lemma callback_other_slots:
  assumes "validation_var vars = Some index" and "tag \<noteq> index"
  shows "map_of (ValidationFailures (fst (callback vars value result rule w))) tag
           = map_of (ValidationFailures rule) tag"
  using assms
  by (auto simp: callback_def update_conv' split: option.splits prod.splits)

lemma run_callbacks_other_slots:
  assumes "validation_var vars = Some index" and "tag \<noteq> index"
  shows "map_of (ValidationFailures (fst (run_callbacks vars value ps rule w))) tag
           = map_of (ValidationFailures rule) tag"
proof (induction ps arbitrary: rule w)
  case Nil
  show ?case by simp
next
  case (Cons p ps)
  show ?case
  proof (cases p)
    case (Fulfils t result)
    obtain rule1 w1 where c: "callback vars value result rule w = (rule1, w1)"
      by (cases "callback vars value result rule w")
    from callback_other_slots [OF assms, of "value" result rule w] c
    have "map_of (ValidationFailures rule1) tag = map_of (ValidationFailures rule) tag" by simp
    with Cons [of rule1 w1] Fulfils c show ?thesis by simp
  next
    case (Rejects t e)
    with Cons show ?thesis by simp
  next
    case Never
    with Cons show ?thesis by simp
  qed
qed

lemma ValidateAsyncEx_loop_validation_var:
  "ValidateAsyncEx_loop value vs fs vars w = (None, vars', w') \<Longrightarrow> fs \<noteq> [] \<Longrightarrow>
     validation_var vars' = Some (fst (last fs))"
proof (induction fs arbitrary: vars w)
  case Nil
  then show ?case by simp
next
  case (Cons entry rest)
  obtain index validation where entry: "entry = (index, validation)" by (cases entry)
  have nil: "validation_var vars' = Some index" if "rest = []" "ValidateAsyncEx_loop value vs rest v1 w1 = (None, vars', w')"
    "validation_var v1 = Some index" for v1 w1
    using that by simp
  show ?case
  proof (cases "rest = []")
    case True
    with Cons.prems show ?thesis
      by (auto simp: entry Let_def split: if_splits option.splits acceptance.splits)
  next
    case False
    with Cons.prems Cons.IH show ?thesis
      by (auto simp: entry Let_def split: if_splits option.splits acceptance.splits)
  qed
qed

lemma ValidateAsyncEx_writes_one_slot:
  assumes "ValidateAsyncEx value rule w = (Inr p, rule', w')"
    and "ValidationFailures rule \<noteq> []" and "tag \<noteq> fst (last (ValidationFailures rule))"
  shows "map_of (ValidationFailures rule') tag = map_of (ValidationFailures rule) tag"
proof -
  obtain e vars w1 where l: "ValidateAsyncEx_call value rule w = (e, vars, w1)"
    by (cases "ValidateAsyncEx_call value rule w")
  with assms(1) have e: "e = None"
    by (auto simp: ValidateAsyncEx_def split: prod.splits option.splits)
  from l e have "validation_var vars = Some (fst (last (ValidationFailures rule)))"
    using ValidateAsyncEx_loop_validation_var assms(2) by (simp add: ValidateAsyncEx_call_def)
  from run_callbacks_other_slots [OF this assms(3)]
  have frame: "map_of (ValidationFailures
      (fst (run_callbacks vars value (sort_key settle_time (promises vars)) rule w1))) tag
      = map_of (ValidationFailures rule) tag" .
  from assms(1) l
  have "rule' = fst (run_callbacks vars value (sort_key settle_time (promises vars)) rule w1)"
    by (auto simp: ValidateAsyncEx_def settle_callbacks_def split: prod.splits)
  with frame show ?thesis by simp
qed

lemma code_rule_reversed:
  "PropertyValidationRule (w0 e0) ''Code'' [0, 2] =
     \<lparr>Name = ''Code'', Validators = [(''required'', 0), (''contains'', 2)],
      ValidationFailures = [(''required'', \<lparr>Error = e0, IsAsync = False\<rparr>),
                            (''contains'', \<lparr>Error = e0, IsAsync = True\<rparr>)],
      Optional = None\<rparr>"
  by (simp add: PropertyValidationRule_def AddValidator_def ex_defs)

text \<open>C6. On a property rule node and on a shared Validator node with an optional-suppression
  predicate installed: read in a world where the predicate returns true, \<open>HasErrors\<close> is
  false, \<open>ErrorCount\<close> is 0 and \<open>ErrorMessage\<close> is empty, whatever failures the node has
  recorded. The predicate is applied to the world of each read: the same node read in a
  world where the predicate returns false reports its recorded failures.\<close>

theorem optional_suppression_at_read_time:
  assumes "Optional rule = Some f" and "Validator_Optional v = Some g"
  shows "(f w \<longrightarrow> \<not> HasErrors w rule \<and> ErrorCount w rule = 0 \<and> ErrorMessage_of w rule = [])
       \<and> (\<not> f w' \<longrightarrow> HasErrors w' rule = list_ex HasError (Errors rule))
       \<and> (g w \<longrightarrow> \<not> Validator_HasErrors w v \<and> Validator_ErrorCount w v = 0
                \<and> Validator_ErrorMessage w v = [])
       \<and> (\<not> g w' \<longrightarrow> Validator_HasErrors w' v = HasError (Validator_Error v))"
  using assms
  by (simp add: HasErrors_def ErrorCount_def ErrorMessage_of_def Validator_HasErrors_def
      Validator_ErrorCount_def Validator_ErrorMessage_def suppressed_def)

lemma not_Checked_example: "not_Checked (example_world checked) = (\<not> checked)"
  by (simp add: not_Checked_def example_world_def get_prop_def)

theorem optional_suppression_at_read_time_witness:
  "Optional failing_rule = Some not_Checked \<and> Validator_Optional failing_validator = Some not_Checked
   \<and> not_Checked (example_world False) \<and> \<not> not_Checked (example_world True)
   \<and> list_ex HasError (Errors failing_rule)
   \<and> \<not> HasErrors (example_world False) failing_rule
   \<and> ErrorCount (example_world False) failing_rule = 0
   \<and> ErrorMessage_of (example_world False) failing_rule = []
   \<and> HasErrors (example_world True) failing_rule
   \<and> \<not> Validator_HasErrors (example_world False) failing_validator
   \<and> Validator_ErrorCount (example_world False) failing_validator = 0
   \<and> Validator_ErrorMessage (example_world False) failing_validator = []
   \<and> Validator_HasErrors (example_world True) failing_validator"
proof -
  have r: "Optional failing_rule = Some not_Checked"
    by (simp add: failing_rule_def)
  have v: "Validator_Optional failing_validator = Some not_Checked"
    by (simp add: failing_validator_def)
  have e: "list_ex HasError (Errors failing_rule)"
    by (simp add: failing_rule_def Errors_def)
  have h: "HasError (Validator_Error failing_validator)"
    by (simp add: failing_validator_def)
  show ?thesis
    using optional_suppression_at_read_time [OF r v, of "example_world False" "example_world True"]
      r v e h
    by (simp add: not_Checked_example)
qed

text \<open>C1 (the code departs from the claim). A property rule with the asynchronous validator
  \<open>contains\<close> declared before the synchronous validator \<open>required\<close>, evaluated by
  \<open>ValidateEx\<close> and then \<open>ValidateAsyncEx\<close>, whatever error \<open>e0\<close> a new slot starts with. On the
  value \<open>C\<close>, which \<open>contains\<close> refuses and \<open>required\<close> accepts, the refusal is written to the
  slot of \<open>required\<close> (under the tag \<open>contains\<close>) and the slot of \<open>contains\<close> is never
  written: it shows what \<open>e0\<close> shows. On an absent value, which \<open>required\<close> refuses, the
  asynchronous pass overwrites the failure that the synchronous pass recorded for
  \<open>required\<close>; \<open>HasErrors\<close> is then what \<open>e0\<close> says.\<close>

theorem async_outcome_written_to_last_slot:
  "isAcceptable contains_validator (JStr ''C'') = Promise (Fulfils 1 False)
   \<and> (case ValidateEx (JStr ''C'') (PropertyValidationRule (w0 e0) ''Code'' [2, 0]) (w0 e0) of
        (r1, rule1, w1) \<Rightarrow>
          (case ValidateAsyncEx (JStr ''C'') rule1 w1 of
             (r2, rule2, w2) \<Rightarrow> (slots rule1, slots rule2, HasErrors w2 rule2)))
       = ([(''contains'', HasError e0, map_option TranslateId (TranslateArgs e0)),
           (''required'', False, Some ''required'')],
          [(''contains'', HasError e0, map_option TranslateId (TranslateArgs e0)),
           (''required'', True, Some ''contains'')], True)
   \<and> (case ValidateEx Undefined (PropertyValidationRule (w0 e0) ''Code'' [2, 0]) (w0 e0) of
        (r1, rule1, w1) \<Rightarrow>
          (case ValidateAsyncEx Undefined rule1 w1 of
             (r2, rule2, w2) \<Rightarrow> (slots rule1, HasErrors w1 rule1, slots rule2, HasErrors w2 rule2)))
       = ([(''contains'', HasError e0, map_option TranslateId (TranslateArgs e0)),
           (''required'', True, Some ''required'')], True,
          [(''contains'', HasError e0, map_option TranslateId (TranslateArgs e0)),
           (''required'', False, Some ''contains'')], HasError e0)"
  by (simp add: code_rule ValidateEx_def ValidateAsyncEx_def ValidateAsyncEx_call_def no_vars_def
      settle_callbacks_def callback_def record_outcome_def extend_AttemptedValue_def
      GetValidationMessage_def slots_def HasErrors_def Errors_def suppressed_def
      absent_def Let_def ex_defs)

text \<open>C3 (the code departs from the claim, in the asynchronous pass). The same property
  rule on \<^verbatim>\<open>undefined\<close> and on \<^verbatim>\<open>null\<close>, whatever error \<open>e0\<close> a new slot starts with. The
  asynchronous pass does not call the check of \<open>contains\<close> and returns a promise that is
  fulfilled, but it does not set the slot of \<open>contains\<close>: the slot still holds \<open>e0\<close>, so it
  goes on reporting a failure if \<open>e0\<close> does; what the pass writes is the slot of \<open>required\<close>.
  With \<open>contains\<close> declared last the pass does set its slot. (The synchronous pass does
  what the claim says: \<open>absent_value_calls\<close>.)\<close>

theorem absent_value_leaves_async_slot_unset:
  "(case ValidateAsyncEx Undefined (PropertyValidationRule (w0 e0) ''Code'' [2, 0]) (w0 e0) of
      (r, rule', w') \<Rightarrow>
        (r, invoked w',
         map_of (ValidationFailures rule') ''contains'', slots rule'))
     = (Inr (Fulfilled [\<lparr>Error = e0, IsAsync = True\<rparr>]), [], Some \<lparr>Error = e0, IsAsync = True\<rparr>,
        [(''contains'', HasError e0, map_option TranslateId (TranslateArgs e0)),
         (''required'', False, Some ''contains'')])
   \<and> (case ValidateAsyncEx Null (PropertyValidationRule (w0 e0) ''Code'' [2, 0]) (w0 e0) of
      (r, rule', w') \<Rightarrow>
        (r, invoked w',
         map_of (ValidationFailures rule') ''contains'', slots rule'))
     = (Inr (Fulfilled [\<lparr>Error = e0, IsAsync = True\<rparr>]), [], Some \<lparr>Error = e0, IsAsync = True\<rparr>,
        [(''contains'', HasError e0, map_option TranslateId (TranslateArgs e0)),
         (''required'', False, Some ''contains'')])
   \<and> HasErrors (w0 unwritten)
        (fst (snd (ValidateAsyncEx Undefined (PropertyValidationRule (w0 unwritten) ''Code'' [2, 0])
                     (w0 unwritten))))
   \<and> (case ValidateAsyncEx Undefined (PropertyValidationRule (w0 e0) ''Code'' [0, 2]) (w0 e0) of
      (r, rule', w') \<Rightarrow> (invoked w', slots rule'))
     = ([], [(''required'', HasError e0, map_option TranslateId (TranslateArgs e0)),
             (''contains'', False, Some ''contains'')])"
  by (simp add: code_rule code_rule_reversed ValidateAsyncEx_def ValidateAsyncEx_call_def no_vars_def
      settle_callbacks_def callback_def record_outcome_def extend_AttemptedValue_def
      GetValidationMessage_def slots_def HasErrors_def Errors_def suppressed_def unwritten_def
      Q_all_def returned_promise_def List.map_filter_simps
      absent_def Let_def ex_defs)

section \<open>Evaluation of one field\<close>

lemma map_of_update_other: "k' \<noteq> k \<Longrightarrow> map_of (AList.update k v xs) k' = map_of xs k'"
  by (simp add: update_conv')

lemma map_fst_update_present:
  "map_of xs k = Some v \<Longrightarrow> map fst (AList.update k v' xs) = map fst xs"
  by (induction xs) (auto split: if_splits)

lemma Validate_shared_frame:
  "Validate_shared c w fces vs = (e, vs') \<Longrightarrow>
     map fst vs' = map fst vs
   \<and> (\<forall>name. name \<notin> fst ` set fces \<longrightarrow> map_of vs' name = map_of vs name)
   \<and> (\<forall>name v'. map_of vs' name = Some v' \<longrightarrow>
         (\<exists>v. map_of vs name = Some v \<and> Validator_Name v' = Validator_Name v
              \<and> ValidateFce v' = ValidateFce v \<and> Validator_Optional v' = Validator_Optional v))"
proof (induction fces arbitrary: vs)
  case Nil
  then show ?case by simp
next
  case (Cons valFce rest)
  show ?case
  proof (cases "map_of vs (fst valFce)")
    case None
    with Cons show ?thesis by simp
  next
    case (Some validator)
    obtain r v1 where vv: "Validator_Validate c validator w = (r, v1)"
      by (cases "Validator_Validate c validator w")
    then have same: "Validator_Name v1 = Validator_Name validator" "ValidateFce v1 = ValidateFce validator"
      "Validator_Optional v1 = Validator_Optional validator"
      by (auto simp: Validator_Validate_def Let_def split: prod.splits)
    let ?vs1 = "AList.update (fst valFce) v1 vs"
    have keys: "map fst ?vs1 = map fst vs" using Some by (rule map_fst_update_present)
    have other: "map_of ?vs1 name = map_of vs name" if "name \<noteq> fst valFce" for name
      using that by (rule map_of_update_other)
    have node: "\<exists>v. map_of vs name = Some v \<and> Validator_Name v' = Validator_Name v
              \<and> ValidateFce v' = ValidateFce v \<and> Validator_Optional v' = Validator_Optional v"
      if "map_of ?vs1 name = Some v'" for name v'
      using that Some same by (cases "name = fst valFce") (auto simp: update_conv')
    show ?thesis
    proof (cases r)
      case (Inl f)
      with Cons.prems Some vv have "vs' = ?vs1" by simp
      with keys other node show ?thesis by auto
    next
      case (Inr b)
      with Cons.prems Some vv have "Validate_shared c w rest ?vs1 = (e, vs')" by simp
      from Cons.IH [OF this] have ih1: "map fst vs' = map fst ?vs1"
        and ih2: "\<And>name. name \<notin> fst ` set rest \<Longrightarrow> map_of vs' name = map_of ?vs1 name"
        and ih3: "\<And>name v'. map_of vs' name = Some v' \<Longrightarrow>
              \<exists>v. map_of ?vs1 name = Some v \<and> Validator_Name v' = Validator_Name v
                \<and> ValidateFce v' = ValidateFce v \<and> Validator_Optional v' = Validator_Optional v"
        by blast+
      have "map fst vs' = map fst vs" using ih1 keys by simp
      moreover have "map_of vs' name = map_of vs name" if "name \<notin> fst ` set (valFce # rest)" for name
        using that ih2 [of name] other [of name] by simp
      moreover have "\<exists>v. map_of vs name = Some v \<and> Validator_Name v' = Validator_Name v
              \<and> ValidateFce v' = ValidateFce v \<and> Validator_Optional v' = Validator_Optional v"
        if "map_of vs' name = Some v'" for name v'
      proof -
        from ih3 [OF that] obtain v2 where "map_of ?vs1 name = Some v2" "Validator_Name v' = Validator_Name v2"
          "ValidateFce v' = ValidateFce v2" "Validator_Optional v' = Validator_Optional v2" by blast
        with node [of name v2] show ?thesis by auto
      qed
      ultimately show ?thesis by blast
    qed
  qed
qed

lemma ValidateField_child_frame:
  "ValidateField_child c propName r w = (e, r1, w1) \<Longrightarrow>
     Rules r1 = Rules r \<and> rule_Validators r1 = rule_Validators r \<and> rule_validator r1 = rule_validator r
   \<and> (\<forall>other. other \<noteq> propName \<longrightarrow> map_of (Children r1) other = map_of (Children r) other)"
  by (auto simp: ValidateField_child_def rule_parts map_of_update_other
      split: option.splits sum.splits prod.splits)

lemma ValidateField_rule_frame:
  "ValidateField_rule c propName r w = (e, pending, r1, w1) \<Longrightarrow>
     Children r1 = Children r \<and> rule_Validators r1 = rule_Validators r \<and> rule_validator r1 = rule_validator r
   \<and> (\<forall>other. other \<noteq> propName \<longrightarrow> map_of (Rules r1) other = map_of (Rules r) other)"
  by (auto simp: ValidateField_rule_def Let_def rule_parts map_of_update_other
      split: option.splits sum.splits prod.splits)

lemma ValidateField_shared_frame:
  "ValidateField_shared c propName r w = (e, r1) \<Longrightarrow>
     Children r1 = Children r \<and> Rules r1 = Rules r \<and> rule_validator r1 = rule_validator r
   \<and> (\<forall>fces name. map_of (ValidationFunctions (rule_validator r)) propName = Some fces \<longrightarrow>
          name \<notin> fst ` set fces \<longrightarrow> map_of (rule_Validators r1) name = map_of (rule_Validators r) name)
   \<and> (map_of (ValidationFunctions (rule_validator r)) propName = None \<longrightarrow>
          rule_Validators r1 = rule_Validators r)"
  by (auto simp: ValidateField_shared_def rule_parts split: option.splits prod.splits
      dest: Validate_shared_frame)

lemma ValidateField_callbacks_frame:
  "ValidateField_callbacks propName pending r w = (r1, w1) \<Longrightarrow>
     Children r1 = Children r \<and> rule_Validators r1 = rule_Validators r \<and> rule_validator r1 = rule_validator r
   \<and> (\<forall>other. other \<noteq> propName \<longrightarrow> map_of (Rules r1) other = map_of (Rules r) other)"
  by (auto simp: ValidateField_callbacks_def rule_parts map_of_update_other
      split: option.splits prod.splits)

text \<open>What \<open>ValidateField\<close> for the property \<open>propName\<close> leaves as it was in the rule it
  is called on: the property rule of every other property (its \<open>ValidationFailures\<close> with
  their errors, slot by slot), the child rule of every other property, and every shared
  \<open>Validator\<close> node whose name is not among the functions declared against \<open>propName\<close>. It
  holds however the call ends, and after the callbacks of the asynchronous validators of
  \<open>propName\<close> have run. The validator objects that the errors refer to are not part of
  the rule.\<close>

lemma ValidateField_leaves_siblings:
  assumes "other \<noteq> propName"
  shows "map_of (Rules (fst (snd (ValidateField c propName r w)))) other = map_of (Rules r) other
       \<and> map_of (Children (fst (snd (ValidateField c propName r w)))) other = map_of (Children r) other
       \<and> (\<forall>name. name \<notin> fst ` set (case map_of (ValidationFunctions (rule_validator r)) propName of
                                        None \<Rightarrow> [] | Some validationFces \<Rightarrow> validationFces)
             \<longrightarrow> map_of (rule_Validators (fst (snd (ValidateField c propName r w)))) name
                 = map_of (rule_Validators r) name)"
proof -
  let ?fces = "case map_of (ValidationFunctions (rule_validator r)) propName of
                 None \<Rightarrow> [] | Some validationFces \<Rightarrow> validationFces"
  obtain e r' w' where vf: "ValidateField c propName r w = (e, r', w')"
    by (cases "ValidateField c propName r w")
  obtain e1 r1 w1 where c1: "ValidateField_child c propName r w = (e1, r1, w1)"
    by (cases "ValidateField_child c propName r w")
  note f1 = ValidateField_child_frame [OF c1]
  have "map_of (Rules r') other = map_of (Rules r) other
      \<and> map_of (Children r') other = map_of (Children r) other
      \<and> (\<forall>name. name \<notin> fst ` set ?fces \<longrightarrow>
            map_of (rule_Validators r') name = map_of (rule_Validators r) name)"
  proof (cases e1)
    case (Returned u)
    obtain e2 pending r2 w2 where c2: "ValidateField_rule c propName r1 w1 = (e2, pending, r2, w2)"
      by (cases "ValidateField_rule c propName r1 w1")
    note f2 = ValidateField_rule_frame [OF c2]
    show ?thesis
    proof (cases e2)
      case Returned2: (Returned u2)
      obtain e3 r3 where c3: "ValidateField_shared c propName r2 w2 = (e3, r3)"
        by (cases "ValidateField_shared c propName r2 w2")
      note f3 = ValidateField_shared_frame [OF c3]
      obtain r4 w4 where c4: "ValidateField_callbacks propName pending r3 w2 = (r4, w4)"
        by (cases "ValidateField_callbacks propName pending r3 w2")
      note f4 = ValidateField_callbacks_frame [OF c4]
      from vf c1 Returned c2 Returned2 c3 c4 have "r' = r4" by (simp add: ValidateField_def)
      with f1 f2 f3 f4 assms show ?thesis by (auto split: option.splits)
    next
      case (Raised f)
      obtain r4 w4 where c4: "ValidateField_callbacks propName pending r2 w2 = (r4, w4)"
        by (cases "ValidateField_callbacks propName pending r2 w2")
      note f4 = ValidateField_callbacks_frame [OF c4]
      from vf c1 Returned c2 Raised c4 have "r' = r4" by (simp add: ValidateField_def)
      with f1 f2 f4 assms show ?thesis by simp
    next
      case Hangs
      obtain r4 w4 where c4: "ValidateField_callbacks propName pending r2 w2 = (r4, w4)"
        by (cases "ValidateField_callbacks propName pending r2 w2")
      note f4 = ValidateField_callbacks_frame [OF c4]
      from vf c1 Returned c2 Hangs c4 have "r' = r4" by (simp add: ValidateField_def)
      with f1 f2 f4 assms show ?thesis by simp
    qed
  next
    case (Raised f)
    with vf c1 have "r' = r1" by (simp add: ValidateField_def)
    with f1 assms show ?thesis by simp
  next
    case Hangs
    with vf c1 have "r' = r1" by (simp add: ValidateField_def)
    with f1 assms show ?thesis by simp
  qed
  with vf show ?thesis by simp
qed

section \<open>The children of a list rule\<close>











lemma update_absent: "k \<notin> fst ` set xs \<Longrightarrow> AList.update k v xs = xs @ [(k, v)]"
  by (induction xs) auto

lemma map_of_Some_mem: "map_of xs k = Some v \<Longrightarrow> k \<in> fst ` set xs"
  by (induction xs) (auto split: if_splits)










section \<open>The value of a declaration\<close>

lemma those_map_Some:
  "those (map f xs) = Some ys \<Longrightarrow> x \<in> set xs \<Longrightarrow> \<exists>y. f x = Some y"
  by (induction xs arbitrary: ys) (auto split: option.splits)

text \<open>Following the nesting deeper than needed gives the same declaration.\<close>

lemma unfolded_Suc: "unfolded k os a = Some d \<Longrightarrow> unfolded (Suc k) os a = Some d"
proof (induction k arbitrary: a d)
  case 0
  then show ?case by simp
next
  case (Suc k)
  let ?f = "\<lambda>k entry. map_option (Pair (fst entry)) (unfolded k os (snd entry))"
  let ?C = "\<lambda>avs. AbstractValidator (Validators_of (os a)) (ValidationFunctions_of (os a)) avs
                 (ForList_of (os a))"
  have step: "unfolded (Suc n) os a = map_option ?C (those (map (?f n) (AbstractValidators_of (os a))))"
    for n
    by (rule unfolded.simps(2))
  from Suc.prems obtain avs where
    avs: "those (map (?f k) (AbstractValidators_of (os a))) = Some avs"
    unfolding step by (cases "those (map (?f k) (AbstractValidators_of (os a)))") simp_all
  have "?f (Suc k) entry = ?f k entry" if "entry \<in> set (AbstractValidators_of (os a))" for entry
  proof -
    from those_map_Some [OF avs that] obtain y where "?f k entry = Some y" by blast
    then obtain d' where d': "unfolded k os (snd entry) = Some d'"
      by (cases "unfolded k os (snd entry)") simp_all
    from Suc.IH [OF d'] d' show ?thesis by (simp only:)
  qed
  then have eq: "map (?f (Suc k)) (AbstractValidators_of (os a)) = map (?f k) (AbstractValidators_of (os a))"
    by (intro map_cong refl)
  have "unfolded (Suc (Suc k)) os a = unfolded (Suc k) os a"
    unfolding step [of "Suc k"] step [of k] eq ..
  with Suc.prems show ?case by (simp only:)
qed

lemma unfolded_add: "unfolded k os a = Some d \<Longrightarrow> unfolded (k + j) os a = Some d"
  by (induction j) (simp_all add: unfolded_Suc del: unfolded.simps)

section \<open>Examples for rule trees\<close>

text \<open>Declarations in the manner of the test suite, made with the methods of
  \<^verbatim>\<open>AbstractValidator\<close>: a contact with a required email (the object at 0); a person with
  two names, both required (one validator object for both), a shared validation function
  that asks for one of the names, and the contact nested (at 1); and a declaration with
  an asynchronous validator (at 2). \<open>contact_decl\<close>, \<open>person_decl\<close> and \<open>remote_decl\<close> are the
  values the rule trees hold them as. The world has two persons (at 10 without a contact,
  at 11 with the contact \<^verbatim>\<open>null\<close>) and two arrays of persons; the error that a new node
  starts with is its parameter, as for \<open>w0\<close>.\<close>

definition one_name :: validator_fce where
  "one_name =
     (''OneName'',
      \<lambda>w c err. (None,
         err\<lparr>HasError := (get_prop w c ''FirstName'' = Inr (JStr []) \<and> get_prop w c ''LastName'' = Inr (JStr []))\<rparr>))"

definition no_declarations :: declarations where
  "no_declarations =
     \<lparr>objects = (\<lambda>a. \<lparr>Validators_of = [], ValidationFunctions_of = [], AbstractValidators_of = [],
                        ForList_of = False\<rparr>),
      allocated = 0\<rparr>"

definition example_declarations :: declarations where
  "example_declarations =
     (case new_AbstractValidator no_declarations of
        (contact, ds1) \<Rightarrow>
          (case new_AbstractValidator (RuleFor contact ''Email'' 0 ds1) of
             (person, ds2) \<Rightarrow>
               (case new_AbstractValidator
                       (ValidatorFor person ''Contact'' contact False
                          (ValidationFor person ''FirstName'' one_name
                             (RuleFor person ''LastName'' 0 (RuleFor person ''FirstName'' 0 ds2)))) of
                  (remote, ds3) \<Rightarrow> RuleFor remote ''FirstName'' 3 ds3)))"

definition contact_decl :: abstract_validator where
  "contact_decl = AbstractValidator [(''Email'', [0])] [] [] False"

definition person_decl :: abstract_validator where
  "person_decl =
     AbstractValidator [(''FirstName'', [0]), (''LastName'', [0])] [(''FirstName'', [one_name])]
       [(''Contact'', contact_decl)] False"

definition remote_decl :: abstract_validator where
  "remote_decl = AbstractValidator [(''FirstName'', [3])] [] [] False"

lemma example_declared:
  "declared example_declarations 0 = Some contact_decl"
  "declared example_declarations 1 = Some person_decl"
  "declared example_declarations 2 = Some remote_decl"
  by (simp_all add: declared_def example_declarations_def no_declarations_def new_AbstractValidator_def
      RuleFor_def ValidationFor_def ValidatorFor_def push_def Let_def numeral_3_eq_3
      contact_decl_def person_decl_def remote_decl_def)

text \<open>The flag of a nested declaration is one flag: registered for a list under one
  property and then not for a list under another, the declaration is not for a list
  under either.\<close>

lemma ValidatorFor_writes_one_flag:
  "map_option (\<lambda>d. map (\<lambda>entry. (fst entry, ForList (snd entry))) (AbstractValidators d))
     (declared
        (case new_AbstractValidator no_declarations of
           (item, ds1) \<Rightarrow>
             (case new_AbstractValidator ds1 of
                (owner, ds2) \<Rightarrow>
                  ValidatorFor owner ''First'' item False (ValidatorFor owner ''Items'' item True ds2)))
        1)
     = Some [(''Items'', False), (''First'', False)]"
  by (simp add: declared_def no_declarations_def new_AbstractValidator_def ValidatorFor_def Let_def
      numeral_2_eq_2)

definition person_world :: "error \<Rightarrow> world" where
  "person_world e0 =
     \<lparr>vstore = example_validators,
      heap = [10 \<mapsto> Object [(''FirstName'', JStr ''John''), (''LastName'', JStr [])],
              11 \<mapsto> Object [(''FirstName'', JStr []), (''LastName'', JStr ''Smith''), (''Contact'', Null)],
              12 \<mapsto> Array [JRef 10] [],
              13 \<mapsto> Array [JRef 10, JRef 11] []],
      next_addr = 20, console = [], invoked = [],
      ValidationMessages = defaultMessages, format = (\<lambda>template validator. template),
      new_Error = e0\<rparr>"

lemma person_decl_eq:
  "person_decl =
     AbstractValidator [(''FirstName'', [0]), (''LastName'', [0])] [(''FirstName'', [one_name])]
       [(''Contact'', AbstractValidator [(''Email'', [0])] [] [] False)] False"
  by (simp add: person_decl_def contact_decl_def)

lemma person_world_fields:
  "vstore (person_world e0) = example_validators" "invoked (person_world e0) = []"
  "console (person_world e0) = []"
  "ValidationMessages (person_world e0) = defaultMessages"
  "format (person_world e0) = (\<lambda>template validator. template)"
  "next_addr (person_world e0) = 20"
  "heap (person_world e0) = [10 \<mapsto> Object [(''FirstName'', JStr ''John''), (''LastName'', JStr [])],
              11 \<mapsto> Object [(''FirstName'', JStr []), (''LastName'', JStr ''Smith''), (''Contact'', Null)],
              12 \<mapsto> Array [JRef 10] [],
              13 \<mapsto> Array [JRef 10, JRef 11] []]"
  "new_Error (person_world e0) = e0"
  by (simp_all add: person_world_def)

definition required_slot :: "error \<Rightarrow> (string \<times> validation_failure) list" where
  "required_slot e0 = [(''required'', \<lparr>Error = e0, IsAsync = False\<rparr>)]"

lemma person_rule:
  "CreateRule (person_world e0) person_decl ''Main'' =
     Rule ''Main'' person_decl False
       [(''FirstName'', \<lparr>Name = ''FirstName'', Validators = [(''required'', 0)],
                          ValidationFailures = required_slot e0, Optional = None\<rparr>),
        (''LastName'', \<lparr>Name = ''LastName'', Validators = [(''required'', 0)],
                         ValidationFailures = required_slot e0, Optional = None\<rparr>)]
       [(''OneName'', Validator (person_world e0) ''OneName'' (snd one_name))]
       [(''Contact'',
         Rule ''Contact'' (AbstractValidator [(''Email'', [0])] [] [] False) False
           [(''Email'', \<lparr>Name = ''Email'', Validators = [(''required'', 0)],
                          ValidationFailures = required_slot e0, Optional = None\<rparr>)]
           [] [] [of_Rule ''Email''] None)]
       [of_Rule ''FirstName'', of_Rule ''LastName'', of_Validator ''OneName'', of_Child ''Contact'']
       None"
  by (simp add: CreateRule_def person_decl_eq add_validators_def createRuleFor_def add_validation_def
      add_child_def PropertyValidationRule_def AddValidator_def Let_def one_name_def required_slot_def
      person_world_fields example_validators_at required_validator_def)

lemma add_validation_Validators:
  "set (map fst (rule_Validators (add_validation w v r))) = insert (fst v) (set (map fst (rule_Validators r)))"
  "distinct (map fst (rule_Validators r)) \<Longrightarrow> distinct (map fst (rule_Validators (add_validation w v r)))"
  by (auto simp: add_validation_def rule_parts update_absent map_of_eq_None_iff
      dest: map_of_Some_mem split: option.splits)

lemma fold_add_validation_Validators:
  "set (map fst (rule_Validators (fold (add_validation w) fces r)))
     = set (map fst (rule_Validators r)) \<union> fst ` set fces
   \<and> (distinct (map fst (rule_Validators r)) \<longrightarrow>
        distinct (map fst (rule_Validators (fold (add_validation w) fces r))))"
proof (induction fces arbitrary: r)
  case Nil
  show ?case by simp
next
  case (Cons v fces)
  from Cons [of "add_validation w v r"] add_validation_Validators(1) [of w v r]
    add_validation_Validators(2) [of r w v]
  show ?case by auto
qed

lemma fold_add_validators_Validators:
  "rule_Validators (fold (add_validators w) vds r) = rule_Validators r"
  by (induction vds arbitrary: r) (simp_all add: add_validators_def createRuleFor_def Let_def rule_parts)

lemma fold_add_child_Validators:
  "rule_Validators (fold (\<lambda>entry r. add_child (fst entry) (F entry) r) avs r) = rule_Validators r"
  by (induction avs arbitrary: r) (simp_all add: add_child_def rule_parts)

lemma constructor_Validators:
  "set (map fst (rule_Validators (AbstractValidationRule w name d False)))
     = fst ` set (concat (map snd (ValidationFunctions d)))
   \<and> distinct (map fst (rule_Validators (AbstractValidationRule w name d False)))"
proof (cases d)
  case (AbstractValidator vds vfs avs fl)
  let ?r0 = "Rule name (AbstractValidator vds vfs avs fl) False [] [] [] [] None"
  from fold_add_validation_Validators [of w "concat (map snd vfs)" "fold (add_validators w) vds ?r0"]
  show ?thesis
    by (simp add: AbstractValidator Let_def fold_add_child_Validators fold_add_validators_Validators)
qed

lemma fold_notify_index_Validators:
  "rule_Validators (fold (notify_index w) is r) = rule_Validators r"
  by (induction "is" arbitrary: r)
     (simp_all add: notify_index_def add_child_def rule_parts split: option.splits)

lemma NotifyListChanged_Validators:
  "NotifyListChanged w c r = (e, r1) \<Longrightarrow> rule_Validators r1 = rule_Validators r"
  by (auto simp: NotifyListChanged_def fold_notify_index_Validators split: outcome.splits)

lemma Validate_Validators:
  assumes "Validate c r w = (e, r', w')"
  shows "rule_Validators r' = rule_Validators r
       \<or> (\<exists>w2 e2. Validate_shared c w2 (concat (map snd (ValidationFunctions (rule_validator r))))
                     (rule_Validators r) = (e2, rule_Validators r'))"
proof (cases r)
  case (Rule n d l rs vs cs ct opt)
  show ?thesis
  proof (cases l)
    case True
    obtain e1 r1 where n1: "NotifyListChanged w c r = (e1, r1)"
      by (cases "NotifyListChanged w c r")
    from NotifyListChanged_Validators [OF n1] have "rule_Validators r1 = rule_Validators r" .
    moreover have "rule_Validators r' = rule_Validators r1"
      using assms n1 True unfolding Rule
      by (auto simp: rule_parts split: outcome.splits prod.splits)
    ultimately show ?thesis by simp
  next
    case False
    with assms show ?thesis unfolding Rule
      by (auto split: outcome.splits prod.splits)
  qed
qed

section \<open>Absent nested properties\<close>










section \<open>Evaluations of the examples\<close>

lemma remote_rule:
  "PropertyValidationRule (person_world e0) ''FirstName'' [3] =
     \<lparr>Name = ''FirstName'', Validators = [(''remote'', 3)],
      ValidationFailures = [(''remote'', \<lparr>Error = e0, IsAsync = True\<rparr>)], Optional = None\<rparr>"
  by (simp add: PropertyValidationRule_def AddValidator_def person_world_fields
      example_validators_at remote_validator_def)

lemma faulty_rule:
  "PropertyValidationRule (person_world e0) ''FirstName'' [4] =
     \<lparr>Name = ''FirstName'', Validators = [(''custom'', 4)],
      ValidationFailures = [(''custom'', \<lparr>Error = e0, IsAsync = False\<rparr>)], Optional = None\<rparr>"
  by (simp add: PropertyValidationRule_def AddValidator_def person_world_fields
      example_validators_at faulty_validator_def)

lemma remote_tree:
  "CreateRule (person_world e0) remote_decl ''Main'' =
     Rule ''Main'' remote_decl False
       [(''FirstName'', PropertyValidationRule (person_world e0) ''FirstName'' [3])] [] []
       [of_Rule ''FirstName''] None"
  by (simp add: CreateRule_def remote_decl_def add_validators_def createRuleFor_def
      PropertyValidationRule_def Let_def)

text \<open>C2 (the code departs from the claim, for asynchronous validators). A synchronous check
  that throws: \<open>ValidateEx\<close> logs it, \<open>Validate\<close> logs it again, and the exception goes to
  the caller. An asynchronous check whose promise is rejected: nothing is logged, and the
  promise that \<open>ValidateAsyncEx\<close> returns stays pending, as does the one that \<open>ValidateAsync\<close>
  of the rule tree returns: neither is ever rejected, nor fulfilled.\<close>

theorem rejected_check_is_absorbed:
  "PropertyValidationRule_Validate \<lparr>Key = ''FirstName'', Data = JRef 10\<rparr>
      (PropertyValidationRule (person_world e0) ''FirstName'' [4]) (person_world e0)
     = (Inl (Thrown ''boom''), PropertyValidationRule (person_world e0) ''FirstName'' [4],
        (person_world e0)
          \<lparr>console :=
             [(''Exception occurred when checking element'' @ [CHR 0x27] @ ''custom'' @ [CHR 0x27] @ '' method.'',
               Thrown ''boom''),
              (''Exception occurred when checking element FirstName.'', Thrown ''boom'')],
           invoked := [(4, JStr ''John'')]\<rparr>)
   \<and> isAcceptable (vstore (person_world e0) 3) (JStr ''John'') = Promise (Rejects 1 (Thrown ''offline''))
   \<and> ValidateAsyncEx (JStr ''John'') (PropertyValidationRule (person_world e0) ''FirstName'' [3]) (person_world e0)
     = (Inr Pending, PropertyValidationRule (person_world e0) ''FirstName'' [3],
        (person_world e0)\<lparr>invoked := [(3, JStr ''John'')]\<rparr>)
   \<and> ValidateAsync (JRef 10)
        (CreateRule (person_world e0) remote_decl ''Main'') (person_world e0)
     = (Returned Pending,
        CreateRule (person_world e0) remote_decl ''Main'',
        (person_world e0)\<lparr>invoked := [(3, JStr ''John'')]\<rparr>)
   \<and> console ((person_world e0)\<lparr>invoked := [(3, JStr ''John'')]\<rparr>) = []"
proof -
  have a: "ValidateAsyncEx (JStr ''John'') (PropertyValidationRule (person_world e0) ''FirstName'' [3]) (person_world e0)
     = (Inr Pending, PropertyValidationRule (person_world e0) ''FirstName'' [3],
        (person_world e0)\<lparr>invoked := [(3, JStr ''John'')]\<rparr>)"
    unfolding remote_rule
    by (simp add: ValidateAsyncEx_def ValidateAsyncEx_call_def no_vars_def settle_callbacks_def
        Q_all_def returned_promise_def List.map_filter_simps absent_def Let_def
        person_world_fields example_validators_at remote_validator_def)
  have s: "PropertyValidationRule_Validate \<lparr>Key = ''FirstName'', Data = JRef 10\<rparr>
      (PropertyValidationRule (person_world e0) ''FirstName'' [4]) (person_world e0)
     = (Inl (Thrown ''boom''), PropertyValidationRule (person_world e0) ''FirstName'' [4],
        (person_world e0)
          \<lparr>console :=
             [(''Exception occurred when checking element'' @ [CHR 0x27] @ ''custom'' @ [CHR 0x27] @ '' method.'',
               Thrown ''boom''),
              (''Exception occurred when checking element FirstName.'', Thrown ''boom'')],
           invoked := [(4, JStr ''John'')]\<rparr>)"
    unfolding faulty_rule
    by (simp add: PropertyValidationRule_Validate_def Value_def get_prop_def ValidateEx_def
        log_method_def log_element_def absent_def Let_def
        person_world_fields example_validators_at faulty_validator_def)
  have t: "ValidateAsync (JRef 10)
        (CreateRule (person_world e0) remote_decl ''Main'') (person_world e0)
     = (Returned Pending,
        CreateRule (person_world e0) remote_decl ''Main'',
        (person_world e0)\<lparr>invoked := [(3, JStr ''John'')]\<rparr>)"
    unfolding remote_tree
    by (simp add: PropertyValidationRule_ValidateAsync_def Value_def get_prop_def a
        returned_promise_def person_world_fields)
  show ?thesis
    using a s t by (simp add: person_world_fields example_validators_at remote_validator_def)
qed

text \<open>What the slots of a property rule report: for each tag whether there is a failure,
  and the validator object that is its message arguments.\<close>

definition reported :: "property_rule \<Rightarrow> (string \<times> bool \<times> addr option) list" where
  "reported rule =
     map (\<lambda>(tag, item). (tag, HasError (Error item), map_option MessageArgs (TranslateArgs (Error item))))
       (ValidationFailures rule)"

text \<open>C7 (the code departs from the claim). \<open>ValidateField\<close> leaves the rule nodes of the
  other properties as they were (\<open>ValidateField_leaves_siblings\<close>), but the error of a
  sibling refers to a validator object as its message arguments, and \<open>ValidateField\<close>
  writes the attempted value into the validator objects of its own property. The
  validator object at address 0 is declared for \<open>FirstName\<close> and for \<open>LastName\<close>. After
  \<open>Validate\<close> on the person at address 10 (first name \<open>John\<close>, last name empty) the failure
  of \<open>LastName\<close> refers to that object, whose attempted value is the empty last name.
  \<open>ValidateField\<close> for \<open>FirstName\<close> then leaves the rule node of \<open>LastName\<close> as it was and
  changes the attempted value of the object to \<open>John\<close>: the failure of \<open>LastName\<close> now
  reports an attempted value that is not its own. It is so whatever error \<open>e0\<close> a new
  slot starts with.\<close>

theorem ValidateField_rewrites_shared_validator:
  "map_of (decl_Validators person_decl) ''FirstName'' = Some [0]
   \<and> map_of (decl_Validators person_decl) ''LastName'' = Some [0]
   \<and> (case Validate (JRef 10) (CreateRule (person_world e0) person_decl ''Main'') (person_world e0) of
        (e1, r1, w1) \<Rightarrow>
          (case ValidateField (JRef 10) ''FirstName'' r1 w1 of
             (e2, r2, w2) \<Rightarrow>
               (e1, map_option reported (map_of (Rules r1) ''LastName''), params (vstore w1 0),
                e2, map_option reported (map_of (Rules r2) ''LastName''), params (vstore w2 0),
                map_of (Rules r2) ''LastName'' = map_of (Rules r1) ''LastName'')))
       = (Returned (), Some [(''required'', True, Some 0)], [(''AttemptedValue'', JStr [])],
          Returned (), Some [(''required'', True, Some 0)], [(''AttemptedValue'', JStr ''John'')],
          True)"
  unfolding person_rule
  by (simp add: init_child_def get_prop_def set_prop_def new_object_def
        ValidateField_def ValidateField_child_def ValidateField_rule_def
        ValidateField_shared_def ValidateField_callbacks_def settle_callbacks_def
        ValidateAsyncEx_call_def no_vars_def reported_def
        PropertyValidationRule_Validate_def Value_def ValidateEx_def record_outcome_def
        extend_AttemptedValue_def GetValidationMessage_def Validator_Validate_def Validator_def
        Validator_HasErrors_def suppressed_def required_slot_def
        person_decl_eq one_name_def absent_def Let_def
        person_world_fields example_validators_at required_validator_def)


text \<open>C8, as stated, fails: the rule made from the example declaration has the \<open>Validator\<close>
  node of the declared shared validation \<open>OneName\<close> as soon as it is constructed, before any
  evaluation.\<close>

theorem shared_validator_exists_after_construction:
  "map fst (rule_Validators (CreateRule (person_world unwritten) person_decl ''Main'')) = [''OneName'']
   \<and> map_of (rule_Validators (CreateRule (person_world unwritten) person_decl ''Main'')) ''OneName''
       = Some (Validator (person_world unwritten) ''OneName'' (snd one_name))"
  by (simp add: person_rule)

text \<open>The node of a shared validation after \<open>k\<close> runs of its function in the world \<open>w\<close> on
  the context \<open>c\<close>, each run on the error the run before has left; and the number of
  functions a declaration has under one name.\<close>

definition runs :: "world \<Rightarrow> jsval \<Rightarrow> nat \<Rightarrow> shared_validator \<Rightarrow> shared_validator" where
  "runs w c k v =
     v\<lparr>Validator_Error := ((\<lambda>err. snd (ValidateFce v w c err)) ^^ k) (Validator_Error v)\<rparr>"

definition declared_times :: "string \<Rightarrow> abstract_validator \<Rightarrow> nat" where
  "declared_times nm d = length (filter (\<lambda>fce. fst fce = nm) (concat (map snd (ValidationFunctions d))))"

lemma runs_0: "runs w c 0 v = v"
  by (simp add: runs_def)

lemma runs_Suc:
  "runs w c k (v\<lparr>Validator_Error := snd (ValidateFce v w c (Validator_Error v))\<rparr>) = runs w c (Suc k) v"
proof -
  have "((\<lambda>err. snd (ValidateFce v w c err)) ^^ k) (snd (ValidateFce v w c (Validator_Error v)))
        = ((\<lambda>err. snd (ValidateFce v w c err)) ^^ Suc k) (Validator_Error v)"
    by (simp only: funpow_Suc_right o_apply)
  then show ?thesis by (simp add: runs_def del: funpow.simps)
qed

lemma Validator_Validate_runs: "snd (Validator_Validate c v w) = runs w c 1 v"
  by (simp add: Validator_Validate_def runs_def Let_def split: prod.splits)

lemma Validate_shared_runs:
  assumes "Validate_shared c w fces vs = (e, vs')" and "map_of vs nm = Some v"
  shows "\<exists>k \<le> length (filter (\<lambda>fce. fst fce = nm) fces).
            map_of vs' nm = Some (runs w c k v)
          \<and> (e = Returned () \<longrightarrow> k = length (filter (\<lambda>fce. fst fce = nm) fces))"
  using assms
proof (induction fces arbitrary: vs v)
  case Nil
  then show ?case by (simp add: runs_0)
next
  case (Cons valFce rest)
  show ?case
  proof (cases "map_of vs (fst valFce)")
    case None
    with Cons.prems have ne: "fst valFce \<noteq> nm" by auto
    from Cons.prems None have "Validate_shared c w rest vs = (e, vs')" by simp
    from Cons.IH [OF this Cons.prems(2)] ne show ?thesis by simp
  next
    case (Some validator)
    obtain res validator' where vv: "Validator_Validate c validator w = (res, validator')"
      by (cases "Validator_Validate c validator w")
    from Validator_Validate_runs [of c validator w] vv
    have v': "validator' = runs w c 1 validator" by simp
    let ?vs1 = "AList.update (fst valFce) validator' vs"
    show ?thesis
    proof (cases "fst valFce = nm")
      case True
      with Some Cons.prems(2) have same: "validator = v" by simp
      have m1: "map_of ?vs1 nm = Some (runs w c 1 v)"
        using True v' same by (simp add: update_conv')
      show ?thesis
      proof (cases res)
        case (Inl f)
        with Cons.prems(1) Some vv have "e = Raised f" "vs' = ?vs1" by simp_all
        with m1 True show ?thesis by (intro exI [of _ 1]) simp
      next
        case (Inr b)
        with Cons.prems(1) Some vv have "Validate_shared c w rest ?vs1 = (e, vs')" by simp
        from Cons.IH [OF this m1] obtain k where
          k: "k \<le> length (filter (\<lambda>fce. fst fce = nm) rest)"
            "map_of vs' nm = Some (runs w c k (runs w c 1 v))"
            "e = Returned () \<longrightarrow> k = length (filter (\<lambda>fce. fst fce = nm) rest)"
          by blast
        have "runs w c k (runs w c 1 v) = runs w c (Suc k) v"
          using runs_Suc [of w c k v] by (simp add: runs_def)
        with k True show ?thesis by (intro exI [of _ "Suc k"]) simp
      qed
    next
      case False
      have m1: "map_of ?vs1 nm = Some v"
        using False Cons.prems(2) by (simp add: update_conv')
      show ?thesis
      proof (cases res)
        case (Inl f)
        with Cons.prems(1) Some vv have "e = Raised f" "vs' = ?vs1" by simp_all
        with m1 show ?thesis by (intro exI [of _ 0]) (simp add: runs_0)
      next
        case (Inr b)
        with Cons.prems(1) Some vv have "Validate_shared c w rest ?vs1 = (e, vs')" by simp
        from Cons.IH [OF this m1] False show ?thesis by simp
      qed
    qed
  qed
qed

lemma Validate_shared_part:
  assumes "Validate c (Rule n d False rs vs cs ct opt) w = (e, r', w')"
  shows "(rule_Validators r' = vs \<and> e \<noteq> Returned ())
       \<or> Validate_shared c w' (concat (map snd (ValidationFunctions d))) vs = (e, rule_Validators r')"
  using assms by (auto split: prod.splits outcome.splits)

lemma fold_add_validation_nodes:
  "map_of (rule_Validators (fold (add_validation w) fces r)) nm = Some v \<Longrightarrow>
     map_of (rule_Validators r) nm = Some v \<or> ((nm, snd (nm, ValidateFce v)) \<in> set fces \<and> v = Validator w nm (ValidateFce v))"
proof (induction fces arbitrary: r)
  case Nil
  then show ?case by simp
next
  case (Cons fce fces)
  from Cons.IH [of "add_validation w fce r"] Cons.prems
  consider "map_of (rule_Validators (add_validation w fce r)) nm = Some v"
    | "(nm, ValidateFce v) \<in> set fces \<and> v = Validator w nm (ValidateFce v)"
    by auto
  then show ?case
  proof cases
    case 1
    then show ?thesis
      by (cases fce)
         (auto simp: add_validation_def rule_parts update_conv' Validator_def
               split: option.splits if_splits)
  next
    case 2
    then show ?thesis by simp
  qed
qed

lemma constructor_nodes:
  assumes "map_of (rule_Validators (AbstractValidationRule w name d False)) nm = Some v"
  shows "(nm, ValidateFce v) \<in> set (concat (map snd (ValidationFunctions d)))
       \<and> v = Validator w nm (ValidateFce v)"
proof (cases d)
  case (AbstractValidator vds vfs avs fl)
  let ?r0 = "Rule name (AbstractValidator vds vfs avs fl) False [] [] [] [] None"
  from assms have "map_of (rule_Validators (fold (add_validation w) (concat (map snd vfs))
      (fold (add_validators w) vds ?r0))) nm = Some v"
    by (simp add: AbstractValidator Let_def fold_add_child_Validators)
  from fold_add_validation_nodes [OF this] show ?thesis
    by (simp add: AbstractValidator fold_add_validators_Validators)
qed

text \<open>A shared validation that sets the error when the first name is empty and leaves it
  as it is otherwise, a declaration with it, and the error it sets.\<close>

definition once_missing :: validator_fce where
  "once_missing =
     (''OnceMissing'',
      \<lambda>w c err. (None,
         if get_prop w c ''FirstName'' = Inr (JStr [])
         then err\<lparr>HasError := True, ErrorMessage := ''A first name was missing.''\<rparr> else err))"

definition sticky_decl :: abstract_validator where
  "sticky_decl = AbstractValidator [] [(''FirstName'', [once_missing])] [] False"

definition missing :: error where
  "missing = \<lparr>HasError = True, ErrorMessage = ''A first name was missing.'', TranslateArgs = None\<rparr>"

lemma sticky_rule:
  "CreateRule w sticky_decl ''Main'' =
     Rule ''Main'' sticky_decl False []
       [(''OnceMissing'',
         \<lparr>Validator_Name = ''OnceMissing'', ValidateFce = snd once_missing,
          Validator_Error = new_Error w, Validator_Optional = None\<rparr>)]
       [] [of_Validator ''OnceMissing''] None"
  by (simp add: CreateRule_def sticky_decl_def add_validation_def Validator_def once_missing_def)

text \<open>C8, amended. A rule constructed from a declaration (not for a list) has, from its
  construction, one \<open>Validator\<close> node for each name of a declared shared validation function,
  and no two for one name; each is the node that the constructor of \<open>Validator\<close> makes for
  a declared function of that name. \<open>Validate\<close> neither adds nor removes a node: the rule
  has the same names before and after. And \<open>Validate\<close> resets no node: called on a rule
  that is not a list rule, in whatever state earlier calls have left it, it leaves the
  node of each name as the node it found with its function run \<open>k\<close> times on the error the
  node held (\<open>runs\<close>), where \<open>k\<close> is the number of functions declared under that name if
  \<open>Validate\<close> returns, and at most that number if it throws; and the rule it leaves is
  again a rule of the same declaration that is not a list rule. What an evaluation
  leaves is what the next one starts from.\<close>

theorem shared_validators_created_at_construction:
  "set (map fst (rule_Validators (AbstractValidationRule wc name d False)))
     = fst ` set (concat (map snd (ValidationFunctions d)))
   \<and> distinct (map fst (rule_Validators (AbstractValidationRule wc name d False)))
   \<and> (\<forall>nm v. map_of (rule_Validators (AbstractValidationRule wc name d False)) nm = Some v \<longrightarrow>
         (nm, ValidateFce v) \<in> set (concat (map snd (ValidationFunctions d)))
       \<and> v = Validator wc nm (ValidateFce v))
   \<and> map fst (rule_Validators (fst (snd (Validate c r w)))) = map fst (rule_Validators r)
   \<and> (\<forall>e r' w' nm v.
         Validate c (Rule n d False rs vs cs ct opt) w = (e, r', w') \<and> map_of vs nm = Some v \<longrightarrow>
         (\<exists>rs' vs' cs'. r' = Rule n d False rs' vs' cs' ct opt)
       \<and> (\<exists>k \<le> declared_times nm d.
            map_of (rule_Validators r') nm = Some (runs w' c k v)
          \<and> (e = Returned () \<longrightarrow> k = declared_times nm d)))"
proof (intro conjI allI impI)
  show "set (map fst (rule_Validators (AbstractValidationRule wc name d False)))
     = fst ` set (concat (map snd (ValidationFunctions d)))"
    "distinct (map fst (rule_Validators (AbstractValidationRule wc name d False)))"
    using constructor_Validators [of wc name d] by simp_all
  show "(nm, ValidateFce v) \<in> set (concat (map snd (ValidationFunctions d)))"
    "v = Validator wc nm (ValidateFce v)"
    if "map_of (rule_Validators (AbstractValidationRule wc name d False)) nm = Some v" for nm v
    using constructor_nodes [OF that] by simp_all
  obtain e r' w' where v: "Validate c r w = (e, r', w')" by (cases "Validate c r w")
  have "map fst (rule_Validators r') = map fst (rule_Validators r)"
    using Validate_Validators [OF v]
  proof
    assume "rule_Validators r' = rule_Validators r"
    then show ?thesis by simp
  next
    assume "\<exists>w2 e2. Validate_shared c w2 (concat (map snd (ValidationFunctions (rule_validator r))))
                     (rule_Validators r) = (e2, rule_Validators r')"
    then obtain w2 e2 where "Validate_shared c w2 (concat (map snd (ValidationFunctions (rule_validator r))))
                     (rule_Validators r) = (e2, rule_Validators r')" by blast
    from Validate_shared_frame [OF this] show ?thesis by blast
  qed
  with v show "map fst (rule_Validators (fst (snd (Validate c r w)))) = map fst (rule_Validators r)"
    by simp
next
  fix e r' w' nm v
  assume a: "Validate c (Rule n d False rs vs cs ct opt) w = (e, r', w') \<and> map_of vs nm = Some v"
  then show "\<exists>rs' vs' cs'. r' = Rule n d False rs' vs' cs' ct opt"
    by (auto split: prod.splits outcome.splits)
  from Validate_shared_part [of c n d rs vs cs ct opt w e r' w'] a
  consider "rule_Validators r' = vs" "e \<noteq> Returned ()"
    | "Validate_shared c w' (concat (map snd (ValidationFunctions d))) vs = (e, rule_Validators r')"
    by blast
  then show "\<exists>k \<le> declared_times nm d.
            map_of (rule_Validators r') nm = Some (runs w' c k v)
          \<and> (e = Returned () \<longrightarrow> k = declared_times nm d)"
  proof cases
    case 1
    with a show ?thesis by (intro exI [of _ 0]) (simp add: runs_0)
  next
    case 2
    from Validate_shared_runs [OF 2, of nm v] a show ?thesis
      by (simp add: declared_times_def)
  qed
qed

theorem shared_validators_created_at_construction_witness:
  "map fst (rule_Validators (CreateRule (person_world unwritten) sticky_decl ''Main'')) = [''OnceMissing'']
   \<and> declared_times ''OnceMissing'' sticky_decl = 1
   \<and> (\<exists>r1 w1 r2 w2 v k1 k2.
         map_of (rule_Validators (CreateRule (person_world unwritten) sticky_decl ''Main'')) ''OnceMissing''
           = Some v
       \<and> Validator_Error v = unwritten
       \<and> Validate (JRef 11) (CreateRule (person_world unwritten) sticky_decl ''Main'')
             (person_world unwritten) = (Returned (), r1, w1)
       \<and> map_of (rule_Validators r1) ''OnceMissing'' = Some (runs w1 (JRef 11) k1 v) \<and> k1 = 1
       \<and> Validator_Error (runs w1 (JRef 11) k1 v) = missing
       \<and> Validate (JRef 10) r1 w1 = (Returned (), r2, w2)
       \<and> map_of (rule_Validators r2) ''OnceMissing''
           = Some (runs w2 (JRef 10) k2 (runs w1 (JRef 11) k1 v)) \<and> k2 = 1
       \<and> Validator_Error (runs w2 (JRef 10) k2 (runs w1 (JRef 11) k1 v)) = missing)"
proof -
  let ?W = "person_world unwritten"
  let ?R = "CreateRule ?W sticky_decl ''Main''"
  let ?v = "\<lparr>Validator_Name = ''OnceMissing'', ValidateFce = snd once_missing,
          Validator_Error = unwritten, Validator_Optional = None\<rparr>"
  let ?v1 = "\<lparr>Validator_Name = ''OnceMissing'', ValidateFce = snd once_missing,
          Validator_Error = missing, Validator_Optional = None\<rparr>"
  let ?r1 = "Rule ''Main'' sticky_decl False []
       [(''OnceMissing'', ?v1)] [] [of_Validator ''OnceMissing''] None"
  have R: "?R = Rule ''Main'' sticky_decl False [] [(''OnceMissing'', ?v)] []
       [of_Validator ''OnceMissing''] None"
    by (simp add: sticky_rule person_world_fields)
  have names: "map fst (rule_Validators ?R) = [''OnceMissing'']" by (simp add: R)
  have times: "declared_times ''OnceMissing'' sticky_decl = 1"
    by (simp add: declared_times_def sticky_decl_def once_missing_def)
  have node: "map_of (rule_Validators ?R) ''OnceMissing'' = Some ?v" by (simp add: R)
  have v1: "Validate (JRef 11) ?R ?W = (Returned (), ?r1, ?W)"
    unfolding R
    by (simp add: sticky_decl_def once_missing_def Validator_Validate_def Validator_HasErrors_def
        suppressed_def get_prop_def missing_def unwritten_def person_world_fields Let_def)
  have v2: "Validate (JRef 10) ?r1 ?W = (Returned (), ?r1, ?W)"
    by (simp add: sticky_decl_def once_missing_def Validator_Validate_def Validator_HasErrors_def
        suppressed_def get_prop_def missing_def person_world_fields Let_def)
  note t = shared_validators_created_at_construction
    [THEN conjunct2, THEN conjunct2, THEN conjunct2, THEN conjunct2, rule_format, THEN conjunct2]
  have n1: "map_of [(''OnceMissing'', ?v)] ''OnceMissing'' = Some ?v" by simp
  have n2: "map_of [(''OnceMissing'', ?v1)] ''OnceMissing''
      = Some (?v1)" by simp
  from t [OF conjI [OF v1 [unfolded R] n1]]
  obtain k1 where "k1 \<le> declared_times ''OnceMissing'' sticky_decl"
    and k1: "map_of (rule_Validators ?r1) ''OnceMissing'' = Some (runs ?W (JRef 11) k1 ?v)"
    and "Returned () = Returned () \<longrightarrow> k1 = declared_times ''OnceMissing'' sticky_decl"
    by blast
  then have k1': "k1 = 1" using times by simp
  from t [OF conjI [OF v2 n2]]
  obtain k2 where "k2 \<le> declared_times ''OnceMissing'' sticky_decl"
    and k2: "map_of (rule_Validators ?r1) ''OnceMissing''
      = Some (runs ?W (JRef 10) k2 (?v1))"
    and "Returned () = Returned () \<longrightarrow> k2 = declared_times ''OnceMissing'' sticky_decl"
    by blast
  then have k2': "k2 = 1" using times by simp
  from k1 have r1: "runs ?W (JRef 11) k1 ?v = ?v1" by simp
  have e1: "Validator_Error (runs ?W (JRef 11) k1 ?v) = missing" by (simp add: r1)
  from k2 have r2: "runs ?W (JRef 10) k2 (?v1) = ?v1"
    by simp
  have e2: "Validator_Error (runs ?W (JRef 10) k2 (runs ?W (JRef 11) k1 ?v)) = missing"
    by (simp add: r1 r2)
  have k2a: "map_of (rule_Validators ?r1) ''OnceMissing''
           = Some (runs ?W (JRef 10) k2 (runs ?W (JRef 11) k1 ?v))"
    using k2 by (simp only: r1)
  have body:
       "map_of (rule_Validators ?R) ''OnceMissing'' = Some ?v
       \<and> Validator_Error ?v = unwritten
       \<and> Validate (JRef 11) ?R ?W = (Returned (), ?r1, ?W)
       \<and> map_of (rule_Validators ?r1) ''OnceMissing'' = Some (runs ?W (JRef 11) k1 ?v) \<and> k1 = 1
       \<and> Validator_Error (runs ?W (JRef 11) k1 ?v) = missing
       \<and> Validate (JRef 10) ?r1 ?W = (Returned (), ?r1, ?W)
       \<and> map_of (rule_Validators ?r1) ''OnceMissing''
           = Some (runs ?W (JRef 10) k2 (runs ?W (JRef 11) k1 ?v)) \<and> k2 = 1
       \<and> Validator_Error (runs ?W (JRef 10) k2 (runs ?W (JRef 11) k1 ?v)) = missing"
    using node v1 k1 k1' e1 v2 k2a k2' e2 by (intro conjI) simp_all
  have "\<exists>r1 w1 r2 w2 v k1 k2.
         map_of (rule_Validators ?R) ''OnceMissing'' = Some v
       \<and> Validator_Error v = unwritten
       \<and> Validate (JRef 11) ?R ?W = (Returned (), r1, w1)
       \<and> map_of (rule_Validators r1) ''OnceMissing'' = Some (runs w1 (JRef 11) k1 v) \<and> k1 = 1
       \<and> Validator_Error (runs w1 (JRef 11) k1 v) = missing
       \<and> Validate (JRef 10) r1 w1 = (Returned (), r2, w2)
       \<and> map_of (rule_Validators r2) ''OnceMissing''
           = Some (runs w2 (JRef 10) k2 (runs w1 (JRef 11) k1 v)) \<and> k2 = 1
       \<and> Validator_Error (runs w2 (JRef 10) k2 (runs w1 (JRef 11) k1 v)) = missing"
    apply (rule exI [of _ ?r1])
    apply (rule exI [of _ ?W])
    apply (rule exI [of _ ?r1])
    apply (rule exI [of _ ?W])
    apply (rule exI [of _ ?v])
    apply (rule exI [of _ k1])
    apply (rule exI [of _ k2])
    apply (rule body)
    done
  with names times show ?thesis by (intro conjI)
qed

text \<open>C9 (the code departs from the claim). The validator object at address 0 is declared
  for \<open>FirstName\<close> and for \<open>LastName\<close> and has no field \<open>AttemptedValue\<close>. After \<open>Validate\<close> on
  the person at address 10 (first name \<open>John\<close>, last name empty) the declared object has
  the field, with the last value it was asked about; and the failure of \<open>FirstName\<close> refers
  to that object as its message arguments, whose attempted value is now the empty last
  name.\<close>

theorem evaluation_writes_to_declared_validator:
  "params (vstore (person_world e0) 0) = []
   \<and> map_of (decl_Validators person_decl) ''FirstName'' = Some [0]
   \<and> (case Validate (JRef 10) (CreateRule (person_world e0) person_decl ''Main'') (person_world e0) of
        (e, r', w') \<Rightarrow>
          (e, params (vstore w' 0),
           map_option (\<lambda>rule. map (\<lambda>(tag, item). map_option MessageArgs (TranslateArgs (Error item)))
                                (ValidationFailures rule)) (map_of (Rules r') ''FirstName''),
           get_prop w' (JRef 10) ''FirstName''))
       = (Returned (), [(''AttemptedValue'', JStr [])], Some [Some 0], Inr (JStr ''John''))"
proof -
  have "(case Validate (JRef 10) (CreateRule (person_world e0) person_decl ''Main'') (person_world e0) of
        (e, r', w') \<Rightarrow>
          (e, params (vstore w' 0),
           map_option (\<lambda>rule. map (\<lambda>(tag, item). map_option MessageArgs (TranslateArgs (Error item)))
                                (ValidationFailures rule)) (map_of (Rules r') ''FirstName''),
           get_prop w' (JRef 10) ''FirstName''))
       = (Returned (), [(''AttemptedValue'', JStr [])], Some [Some 0], Inr (JStr ''John''))"
    unfolding person_rule
    by (simp add: init_child_def get_prop_def set_prop_def new_object_def
        PropertyValidationRule_Validate_def Value_def ValidateEx_def record_outcome_def
        extend_AttemptedValue_def GetValidationMessage_def Validator_Validate_def Validator_def
        Validator_HasErrors_def suppressed_def required_slot_def
        person_decl_eq one_name_def absent_def Let_def
        person_world_fields example_validators_at required_validator_def)
  moreover have "params (vstore (person_world e0) 0) = []"
    by (simp add: person_world_fields example_validators_at required_validator_def)
  moreover have "map_of (decl_Validators person_decl) ''FirstName'' = Some [0]"
    by (simp add: person_decl_eq)
  ultimately show ?thesis by (intro conjI)
qed


end
